theory Spec2Isabelle
  imports Main "HOL-Library.Sublist"
begin

section \<open>The HTTP CONNECT proxy fixture (test/core/end2end/fixtures/http_proxy_fixture.cc)\<close>

text \<open>
  The connection object, its completion handlers and the shutdown policy are embedded
  function by function. Every handler runs under the proxy's combiner, so handlers are
  atomic steps on the connection; the calls into the I/O layer are recorded, in order,
  in the field \<open>effects\<close>, and the closures handed to the I/O layer in \<open>pending\<close>.
\<close>

subsection \<open>Data\<close>

type_synonym grpc_slice = string
type_synonym grpc_slice_buffer = "grpc_slice list"
type_synonym grpc_resolved_address = string

text \<open>\<open>grpc_slice_buffer.length\<close>: the number of bytes held, over all slices.\<close>

definition slice_buffer_length :: "grpc_slice_buffer \<Rightarrow> nat" where
  "slice_buffer_length sb = length (concat sb)"

text \<open>\<open>grpc_slice_buffer_move_into(src, dst)\<close>: returns the new \<open>(src, dst)\<close>.\<close>

definition grpc_slice_buffer_move_into ::
  "grpc_slice_buffer \<Rightarrow> grpc_slice_buffer \<Rightarrow> grpc_slice_buffer \<times> grpc_slice_buffer" where
  "grpc_slice_buffer_move_into src dst = ([], dst @ src)"

definition grpc_slice_buffer_add :: "grpc_slice_buffer \<Rightarrow> grpc_slice \<Rightarrow> grpc_slice_buffer" where
  "grpc_slice_buffer_add sb s = sb @ [s]"

definition grpc_slice_buffer_reset_and_unref :: "grpc_slice_buffer \<Rightarrow> grpc_slice_buffer" where
  "grpc_slice_buffer_reset_and_unref sb = []"

datatype grpc_error_handle = absl_OkStatus | grpc_error string

fun ok :: "grpc_error_handle \<Rightarrow> bool" where
  "ok absl_OkStatus = True"
| "ok (grpc_error msg) = False"

text \<open>A \<open>grpc_endpoint*\<close>: null, the accepted client socket, or the dialed origin socket.\<close>

datatype grpc_endpoint = nullptr | Client_endpoint | Server_endpoint

datatype failure_type =
  SETUP_FAILED
| CLIENT_READ_FAILED
| CLIENT_WRITE_FAILED
| SERVER_READ_FAILED
| SERVER_WRITE_FAILED

text \<open>The callbacks a \<open>grpc_closure\<close> of the connection is initialised with.\<close>

datatype closure =
  On_read_request_done
| On_server_connect_done
| On_write_response_done
| On_client_read_done
| On_client_write_done
| On_server_read_done
| On_server_write_done

datatype buffer_id =
  Client_read_buffer
| Client_deferred_write_buffer
| Client_write_buffer
| Server_read_buffer
| Server_deferred_write_buffer
| Server_write_buffer

text \<open>The calls a handler makes into its collaborators, with their arguments.\<close>

datatype action =
  Endpoint_read grpc_endpoint closure
| Endpoint_write grpc_endpoint grpc_slice_buffer closure
| Endpoint_shutdown grpc_endpoint grpc_error_handle
| Endpoint_destroy grpc_endpoint
| Lookup_hostname string string
| Tcp_client_connect grpc_resolved_address int closure
| Pollset_set_destroy
| Slice_buffer_destroy buffer_id
| Http_parser_destroy
| Http_request_destroy
| Proxy_users_unref
| Gpr_free

datatype grpc_http_parser_state = GRPC_HTTP_FIRST_LINE | GRPC_HTTP_HEADERS | GRPC_HTTP_BODY

record grpc_http_header =
  hdr_key :: string
  hdr_value :: string

record grpc_http_request =
  req_method :: string
  req_path :: string
  req_hdrs :: "grpc_http_header list"

record grpc_http_parser =
  parser_state :: grpc_http_parser_state
  parser_cur_line :: string

text \<open>
  \<open>struct proxy_connection\<close>. The closures and the pollset set carry no state of their
  own here. The last three fields are not fields of the struct: \<open>freed\<close> is set by
  \<open>gpr_free(conn)\<close>, \<open>pending\<close> lists the closures the I/O layer holds and has not
  yet run, \<open>effects\<close> is the sequence of collaborator calls made so far.
\<close>

record proxy_connection =
  client_endpoint :: grpc_endpoint
  server_endpoint :: grpc_endpoint
  refcount :: int
  client_read_failed :: bool
  client_write_failed :: bool
  client_shutdown :: bool
  server_read_failed :: bool
  server_write_failed :: bool
  server_shutdown :: bool
  client_read_buffer :: grpc_slice_buffer
  client_deferred_write_buffer :: grpc_slice_buffer
  client_is_writing :: bool
  client_write_buffer :: grpc_slice_buffer
  server_read_buffer :: grpc_slice_buffer
  server_deferred_write_buffer :: grpc_slice_buffer
  server_is_writing :: bool
  server_write_buffer :: grpc_slice_buffer
  http_parser :: grpc_http_parser
  http_request :: grpc_http_request
  freed :: bool
  pending :: "closure list"
  effects :: "action list"

text \<open>
  The collaborators whose code is not part of the fixture, taken as parameters:
  the HTTP parser (\<open>grpc_http_parser_parse\<close>, which updates the parser and the request it
  points to and returns a status), the base64 decoder (\<open>grpc_base64_decode(s, 0)\<close>), the
  blocking DNS resolver, the clock (\<open>Timestamp::Now()\<close>, in milliseconds), and the value of
  the channel argument \<open>GRPC_ARG_HTTP_PROXY_AUTH_CREDS\<close> (\<open>None\<close> when it is absent).
\<close>

record collaborators =
  grpc_http_parser_parse ::
    "grpc_http_parser \<times> grpc_http_request \<Rightarrow> grpc_slice \<Rightarrow>
     grpc_error_handle \<times> grpc_http_parser \<times> grpc_http_request"
  grpc_base64_decode :: "string \<Rightarrow> grpc_slice"
  LookupHostnameBlocking :: "string \<Rightarrow> string \<Rightarrow> grpc_error_handle + grpc_resolved_address list"
  Timestamp_Now :: int
  proxy_auth_creds :: "string option"

text \<open>A failed \<open>GPR_ASSERT\<close> aborts the process; a completion that is not pending cannot run.\<close>

datatype stop = GPR_ASSERT_failed | Not_pending

subsection \<open>Calls into the I/O layer\<close>

definition emit :: "action \<Rightarrow> proxy_connection \<Rightarrow> proxy_connection" where
  "emit a conn = conn\<lparr>effects := effects conn @ [a]\<rparr>"

definition grpc_endpoint_read :: "grpc_endpoint \<Rightarrow> closure \<Rightarrow> proxy_connection \<Rightarrow> proxy_connection" where
  "grpc_endpoint_read ep cb conn =
     conn\<lparr>pending := pending conn @ [cb], effects := effects conn @ [Endpoint_read ep cb]\<rparr>"

definition grpc_endpoint_write ::
  "grpc_endpoint \<Rightarrow> grpc_slice_buffer \<Rightarrow> closure \<Rightarrow> proxy_connection \<Rightarrow> proxy_connection" where
  "grpc_endpoint_write ep buf cb conn =
     conn\<lparr>pending := pending conn @ [cb], effects := effects conn @ [Endpoint_write ep buf cb]\<rparr>"

definition grpc_endpoint_shutdown ::
  "grpc_endpoint \<Rightarrow> grpc_error_handle \<Rightarrow> proxy_connection \<Rightarrow> proxy_connection" where
  "grpc_endpoint_shutdown ep err conn = emit (Endpoint_shutdown ep err) conn"

definition grpc_tcp_client_connect ::
  "closure \<Rightarrow> grpc_resolved_address \<Rightarrow> int \<Rightarrow> proxy_connection \<Rightarrow> proxy_connection" where
  "grpc_tcp_client_connect cb addr deadline conn =
     conn\<lparr>pending := pending conn @ [cb],
          effects := effects conn @ [Tcp_client_connect addr deadline cb]\<rparr>"

subsection \<open>Reference counting and destruction\<close>

definition proxy_connection_ref :: "proxy_connection \<Rightarrow> proxy_connection" where
  "proxy_connection_ref conn = conn\<lparr>refcount := refcount conn + 1\<rparr>"

text \<open>The body of the \<open>if (gpr_unref(&conn->refcount))\<close> of \<open>proxy_connection_unref\<close>.\<close>

definition proxy_connection_destroy :: "proxy_connection \<Rightarrow> proxy_connection" where
  "proxy_connection_destroy conn =
     (let c1 = emit (Endpoint_destroy (client_endpoint conn)) conn;
          c2 = (if server_endpoint c1 \<noteq> nullptr
                then emit (Endpoint_destroy (server_endpoint c1)) c1 else c1)
      in c2\<lparr>client_read_buffer := [],
             client_deferred_write_buffer := [],
             client_write_buffer := [],
             server_read_buffer := [],
             server_deferred_write_buffer := [],
             server_write_buffer := [],
             freed := True,
             effects := effects c2 @
               [Pollset_set_destroy,
                Slice_buffer_destroy Client_read_buffer,
                Slice_buffer_destroy Client_deferred_write_buffer,
                Slice_buffer_destroy Client_write_buffer,
                Slice_buffer_destroy Server_read_buffer,
                Slice_buffer_destroy Server_deferred_write_buffer,
                Slice_buffer_destroy Server_write_buffer,
                Http_parser_destroy, Http_request_destroy, Proxy_users_unref, Gpr_free]\<rparr>)"

text \<open>
  \<open>gpr_unref\<close> decrements the count and returns true when the count it found was 1.
\<close>

definition proxy_connection_unref :: "proxy_connection \<Rightarrow> proxy_connection" where
  "proxy_connection_unref conn =
     (let c1 = conn\<lparr>refcount := refcount conn - 1\<rparr>
      in if refcount conn = 1 then proxy_connection_destroy c1 else c1)"

subsection \<open>The shutdown policy\<close>

text \<open>
  The locals \<open>shutdown_client\<close> and \<open>shutdown_server\<close> of \<open>proxy_connection_failed\<close>, as
  they stand after the first \<open>if\<close>/\<open>else\<close>.
\<close>

definition shutdown_client :: "proxy_connection \<Rightarrow> failure_type \<Rightarrow> bool" where
  "shutdown_client conn failure =
     (if failure = SETUP_FAILED then True
      else (failure = CLIENT_READ_FAILED \<and> client_write_failed conn) \<or>
           (failure = CLIENT_WRITE_FAILED \<and> client_read_failed conn) \<or>
           (failure = SERVER_READ_FAILED \<and> \<not> client_is_writing conn))"

definition shutdown_server :: "proxy_connection \<Rightarrow> failure_type \<Rightarrow> bool" where
  "shutdown_server conn failure =
     (if failure = SETUP_FAILED then True
      else (failure = SERVER_READ_FAILED \<and> server_write_failed conn) \<or>
           (failure = SERVER_WRITE_FAILED \<and> server_read_failed conn) \<or>
           (failure = CLIENT_READ_FAILED \<and> \<not> server_is_writing conn))"

definition proxy_connection_failed ::
  "proxy_connection \<Rightarrow> failure_type \<Rightarrow> grpc_error_handle \<Rightarrow> proxy_connection" where
  "proxy_connection_failed conn failure error =
     (let c1 = (if shutdown_client conn failure \<and> \<not> client_shutdown conn
                then (grpc_endpoint_shutdown (client_endpoint conn) error conn)
                       \<lparr>client_shutdown := True\<rparr>
                else conn);
          c2 = (if shutdown_server conn failure \<and> \<not> server_shutdown c1 \<and>
                   server_endpoint c1 \<noteq> nullptr
                then (grpc_endpoint_shutdown (server_endpoint c1) error c1)
                       \<lparr>server_shutdown := True\<rparr>
                else c1)
      in proxy_connection_unref c2)"

subsection \<open>Relay handlers\<close>

text \<open>\<open>on_client_write_done_locked\<close>: callback for writing proxy data to the client.\<close>

definition on_client_write_done_locked ::
  "proxy_connection \<Rightarrow> grpc_error_handle \<Rightarrow> proxy_connection" where
  "on_client_write_done_locked conn error =
     (let c1 = conn\<lparr>client_is_writing := False\<rparr> in
      if \<not> ok error then proxy_connection_failed c1 CLIENT_WRITE_FAILED error
      else
        let c2 = c1\<lparr>client_write_buffer :=
                      grpc_slice_buffer_reset_and_unref (client_write_buffer c1)\<rparr> in
        if slice_buffer_length (client_deferred_write_buffer c2) > 0 then
          let (src, dst) = grpc_slice_buffer_move_into
                             (client_deferred_write_buffer c2) (client_write_buffer c2);
              c3 = c2\<lparr>client_deferred_write_buffer := src, client_write_buffer := dst,
                      client_is_writing := True\<rparr>
          in grpc_endpoint_write (client_endpoint c3) (client_write_buffer c3)
               On_client_write_done c3
        else proxy_connection_unref c2)"

text \<open>\<open>on_server_write_done_locked\<close>: callback for writing proxy data to the backend server.\<close>

definition on_server_write_done_locked ::
  "proxy_connection \<Rightarrow> grpc_error_handle \<Rightarrow> proxy_connection" where
  "on_server_write_done_locked conn error =
     (let c1 = conn\<lparr>server_is_writing := False\<rparr> in
      if \<not> ok error then proxy_connection_failed c1 SERVER_WRITE_FAILED error
      else
        let c2 = c1\<lparr>server_write_buffer :=
                      grpc_slice_buffer_reset_and_unref (server_write_buffer c1)\<rparr> in
        if slice_buffer_length (server_deferred_write_buffer c2) > 0 then
          let (src, dst) = grpc_slice_buffer_move_into
                             (server_deferred_write_buffer c2) (server_write_buffer c2);
              c3 = c2\<lparr>server_deferred_write_buffer := src, server_write_buffer := dst,
                      server_is_writing := True\<rparr>
          in grpc_endpoint_write (server_endpoint c3) (server_write_buffer c3)
               On_server_write_done c3
        else proxy_connection_unref c2)"

text \<open>
  \<open>on_client_read_done_locked\<close>: callback for reading data from the client, which will be
  proxied to the backend server.
\<close>

definition on_client_read_done_locked ::
  "proxy_connection \<Rightarrow> grpc_error_handle \<Rightarrow> proxy_connection" where
  "on_client_read_done_locked conn error =
     (if \<not> ok error then proxy_connection_failed conn CLIENT_READ_FAILED error
      else
        let c1 =
          (if server_is_writing conn then
             let (src, dst) = grpc_slice_buffer_move_into
                                (client_read_buffer conn) (server_deferred_write_buffer conn)
             in conn\<lparr>client_read_buffer := src, server_deferred_write_buffer := dst\<rparr>
           else
             let (src, dst) = grpc_slice_buffer_move_into
                                (client_read_buffer conn) (server_write_buffer conn);
                 c2 = proxy_connection_ref
                        (conn\<lparr>client_read_buffer := src, server_write_buffer := dst\<rparr>);
                 c3 = c2\<lparr>server_is_writing := True\<rparr>
             in grpc_endpoint_write (server_endpoint c3) (server_write_buffer c3)
                  On_server_write_done c3)
        in grpc_endpoint_read (client_endpoint c1) On_client_read_done c1)"

text \<open>
  \<open>on_server_read_done_locked\<close>: callback for reading data from the backend server, which
  will be proxied to the client.
\<close>

definition on_server_read_done_locked ::
  "proxy_connection \<Rightarrow> grpc_error_handle \<Rightarrow> proxy_connection" where
  "on_server_read_done_locked conn error =
     (if \<not> ok error then proxy_connection_failed conn SERVER_READ_FAILED error
      else
        let c1 =
          (if client_is_writing conn then
             let (src, dst) = grpc_slice_buffer_move_into
                                (server_read_buffer conn) (client_deferred_write_buffer conn)
             in conn\<lparr>server_read_buffer := src, client_deferred_write_buffer := dst\<rparr>
           else
             let (src, dst) = grpc_slice_buffer_move_into
                                (server_read_buffer conn) (client_write_buffer conn);
                 c2 = proxy_connection_ref
                        (conn\<lparr>server_read_buffer := src, client_write_buffer := dst\<rparr>);
                 c3 = c2\<lparr>client_is_writing := True\<rparr>
             in grpc_endpoint_write (client_endpoint c3) (client_write_buffer c3)
                  On_client_write_done c3)
        in grpc_endpoint_read (server_endpoint c1) On_server_read_done c1)"

subsection \<open>Handshake handlers\<close>

text \<open>\<open>on_write_response_done_locked\<close>: the HTTP response to the CONNECT request was written.\<close>

definition on_write_response_done_locked ::
  "proxy_connection \<Rightarrow> grpc_error_handle \<Rightarrow> proxy_connection" where
  "on_write_response_done_locked conn error =
     (let c1 = conn\<lparr>client_is_writing := False\<rparr> in
      if \<not> ok error then proxy_connection_failed c1 SETUP_FAILED error
      else
        let c2 = c1\<lparr>client_write_buffer :=
                      grpc_slice_buffer_reset_and_unref (client_write_buffer c1)\<rparr>;
            c3 = proxy_connection_unref (proxy_connection_ref (proxy_connection_ref c2));
            c4 = grpc_endpoint_read (client_endpoint c3) On_client_read_done c3
        in grpc_endpoint_read (server_endpoint c4) On_server_read_done c4)"

text \<open>The literal passed to \<open>grpc_slice_from_copied_string\<close> in \<open>on_server_connect_done_locked\<close>.\<close>

definition connected_response :: grpc_slice where
  "connected_response = ''HTTP/1.0 200 connected'' @ [CHR 0x0D, CHR 0x0A, CHR 0x0D, CHR 0x0A]"

text \<open>\<open>on_server_connect_done_locked\<close>: the dial of the backend server completed.\<close>

definition on_server_connect_done_locked ::
  "proxy_connection \<Rightarrow> grpc_error_handle \<Rightarrow> proxy_connection" where
  "on_server_connect_done_locked conn error =
     (if \<not> ok error then proxy_connection_failed conn SETUP_FAILED error
      else
        let slice = connected_response;
            c1 = conn\<lparr>client_write_buffer :=
                        grpc_slice_buffer_add (client_write_buffer conn) slice\<rparr>;
            c2 = c1\<lparr>client_is_writing := True\<rparr>
        in grpc_endpoint_write (client_endpoint c2) (client_write_buffer c2)
             On_write_response_done c2)"

text \<open>
  \<open>proxy_auth_header_matches\<close>. Both arguments are C strings that the two assertions
  require to be non-null; a \<open>string\<close> is never null. \<open>strncmp(v, "Basic ", 6) != 0\<close> holds
  unless the first six bytes of \<open>v\<close> are \<open>Basic \<close> followed by a space; \<open>grpc_slice_str_cmp\<close>
  returns 0 when the slice and the string have the same length and the same bytes.
\<close>

definition proxy_auth_header_matches :: "collaborators \<Rightarrow> string \<Rightarrow> string \<Rightarrow> bool" where
  "proxy_auth_header_matches env proxy_auth_header_val expected_cred =
     (if take 6 proxy_auth_header_val \<noteq> ''Basic '' then False
      else
        let decoded_slice = grpc_base64_decode env (drop 6 proxy_auth_header_val)
        in decoded_slice = expected_cred)"

text \<open>
  The loop over \<open>http_request.hdrs\<close> of \<open>on_read_request_done_locked\<close> with its \<open>break\<close>:
  the value of \<open>client_authenticated\<close> after the loop.
\<close>

fun client_authenticated :: "collaborators \<Rightarrow> grpc_http_header list \<Rightarrow> string \<Rightarrow> bool" where
  "client_authenticated env [] proxy_auth_str = False"
| "client_authenticated env (h # hs) proxy_auth_str =
     (if hdr_key h = ''Proxy-Authorization''
      then proxy_auth_header_matches env (hdr_value h) proxy_auth_str
      else client_authenticated env hs proxy_auth_str)"

text \<open>
  The loop feeding every non-empty slice of the read buffer to the parser: the status it
  stops with, and the parser and request it leaves.
\<close>

fun feed_slices ::
  "collaborators \<Rightarrow> grpc_http_parser \<times> grpc_http_request \<Rightarrow> grpc_slice list \<Rightarrow>
   grpc_error_handle \<times> grpc_http_parser \<times> grpc_http_request" where
  "feed_slices env pr [] = (absl_OkStatus, pr)"
| "feed_slices env pr (s # ss) =
     (if length s > 0 then
        (case grpc_http_parser_parse env pr s of
           (err, pr') \<Rightarrow> if \<not> ok err then (err, pr') else feed_slices env pr' ss)
      else feed_slices env pr ss)"

text \<open>
  The tail of \<open>on_read_request_done_locked\<close> from the comment "Resolve address": the lookup
  of the request path with service \<open>"80"\<close>, the assertion that the result is not empty,
  and the dial of the first address. \<open>error\<close> is the handler's \<open>error\<close> variable, which the
  failure branch passes on as it is. \<open>Duration::Seconds(10)\<close> is 10000 milliseconds.
\<close>

definition resolve_and_connect ::
  "collaborators \<Rightarrow> proxy_connection \<Rightarrow> grpc_error_handle \<Rightarrow> stop + proxy_connection" where
  "resolve_and_connect env conn error =
     (let c1 = emit (Lookup_hostname (req_path (http_request conn)) ''80'') conn in
      case LookupHostnameBlocking env (req_path (http_request conn)) ''80'' of
        Inl status \<Rightarrow> Inr (proxy_connection_failed c1 SETUP_FAILED error)
      | Inr addresses \<Rightarrow>
          if addresses = [] then Inl GPR_ASSERT_failed
          else
            let deadline = Timestamp_Now env + 10 * 1000
            in Inr (grpc_tcp_client_connect On_server_connect_done (addresses ! 0) deadline c1))"

text \<open>
  The part of \<open>on_read_request_done_locked\<close> from the comment "If proxy auth is being used"
  to the end.
\<close>

definition check_auth_and_connect ::
  "collaborators \<Rightarrow> proxy_connection \<Rightarrow> grpc_error_handle \<Rightarrow> stop + proxy_connection" where
  "check_auth_and_connect env conn error =
     (case proxy_auth_creds env of
        Some proxy_auth_str \<Rightarrow>
          if \<not> client_authenticated env (req_hdrs (http_request conn)) proxy_auth_str
          then Inr (proxy_connection_failed conn SETUP_FAILED
                      (grpc_error ''HTTP Connect could not verify authentication''))
          else resolve_and_connect env conn error
      | None \<Rightarrow> resolve_and_connect env conn error)"

text \<open>\<open>on_read_request_done_locked\<close>: callback to read the HTTP CONNECT request.\<close>

definition on_read_request_done_locked ::
  "collaborators \<Rightarrow> proxy_connection \<Rightarrow> grpc_error_handle \<Rightarrow> stop + proxy_connection" where
  "on_read_request_done_locked env conn error =
     (if \<not> ok error then Inr (proxy_connection_failed conn SETUP_FAILED error)
      else
        case feed_slices env (http_parser conn, http_request conn) (client_read_buffer conn) of
          (perr, parser, request) \<Rightarrow>
            let c1 = conn\<lparr>http_parser := parser, http_request := request\<rparr> in
            if \<not> ok perr then Inr (proxy_connection_failed c1 SETUP_FAILED perr)
            else
              let c2 = c1\<lparr>client_read_buffer :=
                            grpc_slice_buffer_reset_and_unref (client_read_buffer c1)\<rparr> in
              if parser_state (http_parser c2) \<noteq> GRPC_HTTP_BODY
              then Inr (grpc_endpoint_read (client_endpoint c2) On_read_request_done c2)
              else if req_method (http_request c2) \<noteq> ''CONNECT''
              then Inr (proxy_connection_failed c2 SETUP_FAILED
                         (grpc_error (''HTTP proxy got request method '' @
                                      req_method (http_request c2))))
              else check_auth_and_connect env c2 error)"

text \<open>
  \<open>on_accept\<close>: the connection is zero-allocated, given the accepted endpoint and one
  reference, its buffers and parser are initialised, and the first read of the request is
  issued. \<open>grpc_http_parser_init\<close> leaves the parser at the first line of an empty request.
\<close>

definition on_accept :: "grpc_endpoint \<Rightarrow> proxy_connection" where
  "on_accept endpoint =
     grpc_endpoint_read endpoint On_read_request_done
       \<lparr>client_endpoint = endpoint,
        server_endpoint = nullptr,
        refcount = 1,
        client_read_failed = False,
        client_write_failed = False,
        client_shutdown = False,
        server_read_failed = False,
        server_write_failed = False,
        server_shutdown = False,
        client_read_buffer = [],
        client_deferred_write_buffer = [],
        client_is_writing = False,
        client_write_buffer = [],
        server_read_buffer = [],
        server_deferred_write_buffer = [],
        server_is_writing = False,
        server_write_buffer = [],
        http_parser = \<lparr>parser_state = GRPC_HTTP_FIRST_LINE, parser_cur_line = []\<rparr>,
        http_request = \<lparr>req_method = [], req_path = [], req_hdrs = []\<rparr>,
        freed = False,
        pending = [],
        effects = []\<rparr>"

subsection \<open>Completions\<close>

text \<open>
  A completion of an operation the connection has issued: the status the closure is run
  with and, for a read, the slices the endpoint has put into the read buffer.
\<close>

datatype event =
  Read_request_done grpc_error_handle "grpc_slice list"
| Server_connect_done grpc_error_handle
| Write_response_done grpc_error_handle
| Client_read_done grpc_error_handle "grpc_slice list"
| Client_write_done grpc_error_handle
| Server_read_done grpc_error_handle "grpc_slice list"
| Server_write_done grpc_error_handle

fun closure_of :: "event \<Rightarrow> closure" where
  "closure_of (Read_request_done err sl) = On_read_request_done"
| "closure_of (Server_connect_done err) = On_server_connect_done"
| "closure_of (Write_response_done err) = On_write_response_done"
| "closure_of (Client_read_done err sl) = On_client_read_done"
| "closure_of (Client_write_done err) = On_client_write_done"
| "closure_of (Server_read_done err sl) = On_server_read_done"
| "closure_of (Server_write_done err) = On_server_write_done"

text \<open>
  What the I/O layer has done when it runs the closure: a successful read has appended
  slices to the buffer it was given, a successful dial has stored the new endpoint in
  \<open>conn->server_endpoint\<close>.
\<close>

fun deliver :: "event \<Rightarrow> proxy_connection \<Rightarrow> proxy_connection" where
  "deliver (Read_request_done err sl) conn =
     (if ok err then conn\<lparr>client_read_buffer := client_read_buffer conn @ sl\<rparr> else conn)"
| "deliver (Server_connect_done err) conn =
     (if ok err then conn\<lparr>server_endpoint := Server_endpoint\<rparr> else conn)"
| "deliver (Write_response_done err) conn = conn"
| "deliver (Client_read_done err sl) conn =
     (if ok err then conn\<lparr>client_read_buffer := client_read_buffer conn @ sl\<rparr> else conn)"
| "deliver (Client_write_done err) conn = conn"
| "deliver (Server_read_done err sl) conn =
     (if ok err then conn\<lparr>server_read_buffer := server_read_buffer conn @ sl\<rparr> else conn)"
| "deliver (Server_write_done err) conn = conn"

text \<open>The combiner runs the locked handler of the closure.\<close>

fun run_closure :: "collaborators \<Rightarrow> event \<Rightarrow> proxy_connection \<Rightarrow> stop + proxy_connection" where
  "run_closure env (Read_request_done err sl) conn = on_read_request_done_locked env conn err"
| "run_closure env (Server_connect_done err) conn = Inr (on_server_connect_done_locked conn err)"
| "run_closure env (Write_response_done err) conn = Inr (on_write_response_done_locked conn err)"
| "run_closure env (Client_read_done err sl) conn = Inr (on_client_read_done_locked conn err)"
| "run_closure env (Client_write_done err) conn = Inr (on_client_write_done_locked conn err)"
| "run_closure env (Server_read_done err sl) conn = Inr (on_server_read_done_locked conn err)"
| "run_closure env (Server_write_done err) conn = Inr (on_server_write_done_locked conn err)"

text \<open>
  One completion: it can only fire for a closure the I/O layer holds, on a connection that
  has not been freed; the closure is taken off the pending list and run.
\<close>

definition step :: "collaborators \<Rightarrow> proxy_connection \<Rightarrow> event \<Rightarrow> stop + proxy_connection" where
  "step env conn e =
     (if freed conn \<or> closure_of e \<notin> set (pending conn) then Inl Not_pending
      else run_closure env e
             (deliver e (conn\<lparr>pending := remove1 (closure_of e) (pending conn)\<rparr>)))"

fun run :: "collaborators \<Rightarrow> proxy_connection \<Rightarrow> event list \<Rightarrow> stop + proxy_connection" where
  "run env conn [] = Inr conn"
| "run env conn (e # es) =
     (case step env conn e of Inl s \<Rightarrow> Inl s | Inr conn' \<Rightarrow> run env conn' es)"

subsection \<open>Observations on a run\<close>

text \<open>The \<open>grpc_endpoint_shutdown\<close> calls among the effects, in order.\<close>

fun shutdown_calls :: "action list \<Rightarrow> (grpc_endpoint \<times> grpc_error_handle) list" where
  "shutdown_calls [] = []"
| "shutdown_calls (Endpoint_shutdown ep err # as) = (ep, err) # shutdown_calls as"
| "shutdown_calls (a # as) = shutdown_calls as"

text \<open>
  The bytes handed to \<open>grpc_endpoint_write\<close> on endpoint \<open>ep\<close> with completion closure
  \<open>cb\<close>, concatenated in the order of the calls.
\<close>

fun bytes_written :: "grpc_endpoint \<Rightarrow> closure \<Rightarrow> action list \<Rightarrow> string" where
  "bytes_written ep cb [] = []"
| "bytes_written ep cb (Endpoint_write ep' buf cb' # as) =
     (if ep' = ep \<and> cb' = cb then concat buf else []) @ bytes_written ep cb as"
| "bytes_written ep cb (a # as) = bytes_written ep cb as"

text \<open>The \<open>LookupHostnameBlocking\<close> calls among the effects, in order.\<close>

fun lookup_calls :: "action list \<Rightarrow> (string \<times> string) list" where
  "lookup_calls [] = []"
| "lookup_calls (Lookup_hostname host service # as) = (host, service) # lookup_calls as"
| "lookup_calls (a # as) = lookup_calls as"

text \<open>The bytes the successful relay reads of a run have delivered, per side.\<close>

fun client_bytes_read :: "event list \<Rightarrow> string" where
  "client_bytes_read [] = []"
| "client_bytes_read (Client_read_done err sl # es) =
     (if ok err then concat sl else []) @ client_bytes_read es"
| "client_bytes_read (e # es) = client_bytes_read es"

fun server_bytes_read :: "event list \<Rightarrow> string" where
  "server_bytes_read [] = []"
| "server_bytes_read (Server_read_done err sl # es) =
     (if ok err then concat sl else []) @ server_bytes_read es"
| "server_bytes_read (e # es) = server_bytes_read es"

text \<open>A relay write on the origin, or on the client, that completes with an error.\<close>

fun origin_write_failed :: "event \<Rightarrow> bool" where
  "origin_write_failed (Server_write_done err) = (\<not> ok err)"
| "origin_write_failed e = False"

fun client_write_failed_event :: "event \<Rightarrow> bool" where
  "client_write_failed_event (Client_write_done err) = (\<not> ok err)"
| "client_write_failed_event e = False"

subsection \<open>Example collaborators and runs\<close>

text \<open>
  A parser that finishes the request on the first slice, taking the slice as its path; a
  decoder that knows one credential; a resolver that returns one address.
\<close>

definition example_parse ::
  "grpc_http_parser \<times> grpc_http_request \<Rightarrow> grpc_slice \<Rightarrow>
   grpc_error_handle \<times> grpc_http_parser \<times> grpc_http_request" where
  "example_parse pr s =
     (absl_OkStatus, (fst pr)\<lparr>parser_state := GRPC_HTTP_BODY\<rparr>,
      (snd pr)\<lparr>req_method := ''CONNECT'', req_path := s\<rparr>)"

definition example_env :: collaborators where
  "example_env =
     \<lparr>grpc_http_parser_parse = example_parse,
      grpc_base64_decode =
        (\<lambda>s. if s = ''YWxhZGRpbjpvcGVuc2VzYW1l'' then ''aladdin:opensesame'' else []),
      LookupHostnameBlocking = (\<lambda>host service. Inr [host @ '':'' @ service]),
      Timestamp_Now = 0,
      proxy_auth_creds = None\<rparr>"

definition example_handshake :: "event list" where
  "example_handshake =
     [Read_request_done absl_OkStatus [''example.test''],
      Server_connect_done absl_OkStatus,
      Write_response_done absl_OkStatus]"

text \<open>A resolver that succeeds with no address.\<close>

definition empty_dns_env :: collaborators where
  "empty_dns_env = example_env\<lparr>LookupHostnameBlocking := (\<lambda>host service. Inr [])\<rparr>"

text \<open>
  A proxy that expects the credential \<open>aladdin:opensesame\<close>, and a request that carries it;
  the parser of this example yields that request.
\<close>

definition auth_request :: grpc_http_request where
  "auth_request =
     \<lparr>req_method = ''CONNECT'', req_path = ''x:1'',
      req_hdrs = [\<lparr>hdr_key = ''Host'', hdr_value = ''x:1''\<rparr>,
                  \<lparr>hdr_key = ''Proxy-Authorization'',
                   hdr_value = ''Basic YWxhZGRpbjpvcGVuc2VzYW1l''\<rparr>]\<rparr>"

definition auth_env :: collaborators where
  "auth_env = example_env
     \<lparr>grpc_http_parser_parse :=
        (\<lambda>pr s. (absl_OkStatus, (fst pr)\<lparr>parser_state := GRPC_HTTP_BODY\<rparr>, auth_request)),
      proxy_auth_creds := Some ''aladdin:opensesame''\<rparr>"

text \<open>An accepted connection whose first read has delivered one slice.\<close>

definition request_read :: proxy_connection where
  "request_read =
     deliver (Read_request_done absl_OkStatus [''CONNECT x:1 HTTP/1.1''])
       ((on_accept Client_endpoint)\<lparr>pending := []\<rparr>)"

subsection \<open>Invariants\<close>

text \<open>None of the four \<open>*_failed\<close> bit-fields is set.\<close>

definition no_failed_flag :: "proxy_connection \<Rightarrow> bool" where
  "no_failed_flag c =
     (\<not> client_read_failed c \<and> \<not> client_write_failed c \<and>
      \<not> server_read_failed c \<and> \<not> server_write_failed c)"

text \<open>The number of \<open>grpc_endpoint_shutdown\<close> calls made on an endpoint.\<close>

definition shutdown_count :: "grpc_endpoint \<Rightarrow> action list \<Rightarrow> nat" where
  "shutdown_count ep effs = length (filter (\<lambda>call. fst call = ep) (shutdown_calls effs))"

text \<open>
  Each side's \<open>shutdown\<close> flag tells whether its endpoint has been shut down, which has
  then happened once.
\<close>

definition shutdown_inv :: "proxy_connection \<Rightarrow> bool" where
  "shutdown_inv c =
     (client_endpoint c = Client_endpoint \<and>
      (server_endpoint c = nullptr \<or> server_endpoint c = Server_endpoint) \<and>
      shutdown_count Client_endpoint (effects c) = (if client_shutdown c then 1 else 0) \<and>
      shutdown_count Server_endpoint (effects c) = (if server_shutdown c then 1 else 0))"

text \<open>
  What holds of a connection between any two handlers: the client endpoint is the accepted
  one, the read buffers are empty, the reference count is the number of pending closures,
  and a write on the origin is pending while \<open>server_is_writing\<close> is set.
\<close>

definition base_inv :: "proxy_connection \<Rightarrow> bool" where
  "base_inv c =
     (client_endpoint c = Client_endpoint \<and>
      client_read_buffer c = [] \<and> server_read_buffer c = [] \<and>
      refcount c = int (length (pending c)) \<and>
      (server_is_writing c \<longrightarrow> On_server_write_done \<in> set (pending c)))"

text \<open>The request is being read (\<open>cb\<close> is the read) or the origin is being dialed.\<close>

definition handshake_inv :: "proxy_connection \<Rightarrow> closure \<Rightarrow> bool" where
  "handshake_inv c cb =
     (base_inv c \<and> pending c = [cb] \<and> \<not> client_is_writing c \<and>
      client_write_buffer c = [] \<and> client_deferred_write_buffer c = [])"

text \<open>The response to the CONNECT request is being written.\<close>

definition responding_inv :: "proxy_connection \<Rightarrow> bool" where
  "responding_inv c =
     (base_inv c \<and> pending c = [On_write_response_done] \<and>
      server_endpoint c = Server_endpoint \<and> client_is_writing c \<and>
      client_write_buffer c = [connected_response] \<and> client_deferred_write_buffer c = [])"

text \<open>The connection relays, or has been destroyed (nothing is pending then).\<close>

definition relay_inv :: "proxy_connection \<Rightarrow> bool" where
  "relay_inv c =
     (base_inv c \<and>
      On_read_request_done \<notin> set (pending c) \<and>
      On_server_connect_done \<notin> set (pending c) \<and>
      On_write_response_done \<notin> set (pending c) \<and>
      (pending c \<noteq> [] \<longrightarrow> server_endpoint c = Server_endpoint) \<and>
      (client_is_writing c \<longrightarrow> On_client_write_done \<in> set (pending c)))"

definition conn_inv :: "proxy_connection \<Rightarrow> bool" where
  "conn_inv c =
     (handshake_inv c On_read_request_done \<or> handshake_inv c On_server_connect_done \<or>
      responding_inv c \<or> relay_inv c)"

text \<open>
  The bytes written to the origin by the relay, followed by the bytes deferred for it, are
  \<open>bytes\<close>; without a write in flight nothing is deferred and the write buffer is
  empty; a destroyed connection defers nothing. Likewise for the client.
\<close>

definition origin_stream_inv :: "proxy_connection \<Rightarrow> string \<Rightarrow> bool" where
  "origin_stream_inv c bytes =
     (bytes_written Server_endpoint On_server_write_done (effects c) @
        concat (server_deferred_write_buffer c) = bytes \<and>
      (\<not> server_is_writing c \<longrightarrow>
         concat (server_deferred_write_buffer c) = [] \<and> server_write_buffer c = []) \<and>
      (freed c \<longrightarrow> server_deferred_write_buffer c = []))"

definition client_stream_inv :: "proxy_connection \<Rightarrow> string \<Rightarrow> bool" where
  "client_stream_inv c bytes =
     (bytes_written Client_endpoint On_client_write_done (effects c) @
        concat (client_deferred_write_buffer c) = bytes \<and>
      (\<not> client_is_writing c \<longrightarrow>
         concat (client_deferred_write_buffer c) = [] \<and> client_write_buffer c = []) \<and>
      (freed c \<longrightarrow> client_deferred_write_buffer c = []))"

text \<open>
  Two runs after the handshake. In the first the client sends \<open>a\<close> and \<open>b\<close>, the write
  of \<open>a\<close> to the origin fails while \<open>b\<close> is deferred, and both reads then fail. In the
  second the client's \<open>ping\<close> arrives in two reads, the origin answers \<open>pong\<close>, all
  writes succeed, and both reads then fail.
\<close>

definition lossy_trace :: "event list" where
  "lossy_trace = example_handshake @
     [Client_read_done absl_OkStatus [''a''],
      Client_read_done absl_OkStatus [''b''],
      Server_write_done (grpc_error ''EPIPE''),
      Client_read_done (grpc_error ''EOF'') [],
      Server_read_done (grpc_error ''EOF'') []]"

definition echo_trace :: "event list" where
  "echo_trace = example_handshake @
     [Client_read_done absl_OkStatus [''pi''],
      Client_read_done absl_OkStatus [''ng''],
      Server_write_done absl_OkStatus,
      Server_read_done absl_OkStatus [''pong''],
      Server_write_done absl_OkStatus,
      Client_write_done absl_OkStatus,
      Client_read_done (grpc_error ''EOF'') [],
      Server_read_done (grpc_error ''EOF'') []]"

text \<open>A relay write on the origin, or on the client, that completes successfully.\<close>

fun origin_write_ok :: "event \<Rightarrow> bool" where
  "origin_write_ok (Server_write_done err) = ok err"
| "origin_write_ok e = False"

fun client_write_ok :: "event \<Rightarrow> bool" where
  "client_write_ok (Client_write_done err) = ok err"
| "client_write_ok e = False"

text \<open>A connection with the content of a deferred buffer left out of consideration.\<close>

definition forget_origin_deferred :: "proxy_connection \<Rightarrow> proxy_connection" where
  "forget_origin_deferred c = c\<lparr>server_deferred_write_buffer := []\<rparr>"

definition forget_client_deferred :: "proxy_connection \<Rightarrow> proxy_connection" where
  "forget_client_deferred c = c\<lparr>client_deferred_write_buffer := []\<rparr>"

text \<open>
  A continuation of a run in which \<open>b\<close> is deferred for the origin: the write in flight
  fails, two more reads arrive, and the write issued for the first of them succeeds.
\<close>

definition resumed_trace :: "event list" where
  "resumed_trace =
     [Server_write_done (grpc_error ''EPIPE''),
      Client_read_done absl_OkStatus [''c''],
      Client_read_done absl_OkStatus [''d''],
      Server_write_done absl_OkStatus]"

text \<open>A shutdown flag that was set stays set: \<open>a\<close> and \<open>b\<close> are the flags' earlier values.\<close>

definition flags_kept :: "bool \<Rightarrow> bool \<Rightarrow> proxy_connection \<Rightarrow> bool" where
  "flags_kept a b c = ((a \<longrightarrow> client_shutdown c) \<and> (b \<longrightarrow> server_shutdown c))"

text \<open>A run in which the client's read fails and then the origin's.\<close>

definition example_teardown :: "event list" where
  "example_teardown =
     [Client_read_done (grpc_error ''EOF'') [],
      Server_read_done (grpc_error ''EOF'') []]"

section \<open>Properties\<close>

lemmas io_defs = emit_def grpc_endpoint_read_def grpc_endpoint_write_def
  grpc_endpoint_shutdown_def grpc_tcp_client_connect_def proxy_connection_ref_def
  proxy_connection_destroy_def proxy_connection_unref_def

lemmas buf_defs = slice_buffer_length_def grpc_slice_buffer_move_into_def
  grpc_slice_buffer_add_def grpc_slice_buffer_reset_and_unref_def

lemmas policy_defs = proxy_connection_failed_def shutdown_client_def shutdown_server_def

lemmas handler_defs = on_client_write_done_locked_def on_server_write_done_locked_def
  on_client_read_done_locked_def on_server_read_done_locked_def
  on_write_response_done_locked_def on_server_connect_done_locked_def
  on_read_request_done_locked_def check_auth_and_connect_def resolve_and_connect_def
  proxy_auth_header_matches_def

lemmas example_defs = example_env_def example_parse_def example_handshake_def on_accept_def

lemmas eval_defs = example_defs step_def handler_defs io_defs buf_defs policy_defs Let_def

subsection \<open>The shutdown policy\<close>

lemma shutdown_calls_append:
  "shutdown_calls (xs @ ys) = shutdown_calls xs @ shutdown_calls ys"
  by (induction xs rule: shutdown_calls.induct) simp_all

lemma shutdown_calls_unref:
  "shutdown_calls (effects (proxy_connection_unref c)) = shutdown_calls (effects c)"
  by (simp add: io_defs Let_def shutdown_calls_append)

text \<open>
  C1. The shutdown policy chooses the client exactly under the client conditions (client
  read failed with \<open>client_write_failed\<close>, client write failed with \<open>client_read_failed\<close>,
  origin read failed while the client is not writing) and the origin exactly under the
  origin conditions; a handshake-phase failure chooses both. The endpoints it then shuts
  down are the chosen ones that were not shut down before, the origin only when it is
  allocated.
\<close>

theorem shutdown_policy_choice:
  "shutdown_client conn failure =
     (failure = SETUP_FAILED \<or>
      (failure = CLIENT_READ_FAILED \<and> client_write_failed conn) \<or>
      (failure = CLIENT_WRITE_FAILED \<and> client_read_failed conn) \<or>
      (failure = SERVER_READ_FAILED \<and> \<not> client_is_writing conn)) \<and>
   shutdown_server conn failure =
     (failure = SETUP_FAILED \<or>
      (failure = SERVER_READ_FAILED \<and> server_write_failed conn) \<or>
      (failure = SERVER_WRITE_FAILED \<and> server_read_failed conn) \<or>
      (failure = CLIENT_READ_FAILED \<and> \<not> server_is_writing conn)) \<and>
   shutdown_calls (effects (proxy_connection_failed conn failure error)) =
     shutdown_calls (effects conn) @
     (if shutdown_client conn failure \<and> \<not> client_shutdown conn
      then [(client_endpoint conn, error)] else []) @
     (if shutdown_server conn failure \<and> \<not> server_shutdown conn \<and>
         server_endpoint conn \<noteq> nullptr
      then [(server_endpoint conn, error)] else [])"
proof -
  have calls: "shutdown_calls (effects (proxy_connection_failed conn failure error)) =
     shutdown_calls (effects conn) @
     (if shutdown_client conn failure \<and> \<not> client_shutdown conn
      then [(client_endpoint conn, error)] else []) @
     (if shutdown_server conn failure \<and> \<not> server_shutdown conn \<and>
         server_endpoint conn \<noteq> nullptr
      then [(server_endpoint conn, error)] else [])"
    by (simp add: proxy_connection_failed_def shutdown_calls_unref grpc_endpoint_shutdown_def
          emit_def Let_def shutdown_calls_append)
  show ?thesis
    using calls by (cases failure) (simp_all add: shutdown_client_def shutdown_server_def)
qed

subsection \<open>Successful relay completions\<close>

lemma client_read_ok:
  "on_client_read_done_locked conn absl_OkStatus =
     (if server_is_writing conn
      then conn\<lparr>client_read_buffer := [],
                server_deferred_write_buffer :=
                  server_deferred_write_buffer conn @ client_read_buffer conn,
                pending := pending conn @ [On_client_read_done],
                effects := effects conn @
                  [Endpoint_read (client_endpoint conn) On_client_read_done]\<rparr>
      else conn\<lparr>client_read_buffer := [],
                server_write_buffer := server_write_buffer conn @ client_read_buffer conn,
                refcount := refcount conn + 1,
                server_is_writing := True,
                pending := pending conn @ [On_server_write_done, On_client_read_done],
                effects := effects conn @
                  [Endpoint_write (server_endpoint conn)
                     (server_write_buffer conn @ client_read_buffer conn) On_server_write_done,
                   Endpoint_read (client_endpoint conn) On_client_read_done]\<rparr>)"
  by (simp add: on_client_read_done_locked_def io_defs buf_defs Let_def)

lemma server_read_ok:
  "on_server_read_done_locked conn absl_OkStatus =
     (if client_is_writing conn
      then conn\<lparr>server_read_buffer := [],
                client_deferred_write_buffer :=
                  client_deferred_write_buffer conn @ server_read_buffer conn,
                pending := pending conn @ [On_server_read_done],
                effects := effects conn @
                  [Endpoint_read (server_endpoint conn) On_server_read_done]\<rparr>
      else conn\<lparr>server_read_buffer := [],
                client_write_buffer := client_write_buffer conn @ server_read_buffer conn,
                refcount := refcount conn + 1,
                client_is_writing := True,
                pending := pending conn @ [On_client_write_done, On_server_read_done],
                effects := effects conn @
                  [Endpoint_write (client_endpoint conn)
                     (client_write_buffer conn @ server_read_buffer conn) On_client_write_done,
                   Endpoint_read (server_endpoint conn) On_server_read_done]\<rparr>)"
  by (simp add: on_server_read_done_locked_def io_defs buf_defs Let_def)

lemma server_write_ok:
  "on_server_write_done_locked conn absl_OkStatus =
     (if slice_buffer_length (server_deferred_write_buffer conn) > 0
      then conn\<lparr>server_is_writing := True,
                server_write_buffer := server_deferred_write_buffer conn,
                server_deferred_write_buffer := [],
                pending := pending conn @ [On_server_write_done],
                effects := effects conn @
                  [Endpoint_write (server_endpoint conn) (server_deferred_write_buffer conn)
                     On_server_write_done]\<rparr>
      else proxy_connection_unref
             (conn\<lparr>server_is_writing := False, server_write_buffer := []\<rparr>))"
  by (simp add: on_server_write_done_locked_def grpc_endpoint_write_def buf_defs Let_def)

lemma client_write_ok:
  "on_client_write_done_locked conn absl_OkStatus =
     (if slice_buffer_length (client_deferred_write_buffer conn) > 0
      then conn\<lparr>client_is_writing := True,
                client_write_buffer := client_deferred_write_buffer conn,
                client_deferred_write_buffer := [],
                pending := pending conn @ [On_client_write_done],
                effects := effects conn @
                  [Endpoint_write (client_endpoint conn) (client_deferred_write_buffer conn)
                     On_client_write_done]\<rparr>
      else proxy_connection_unref
             (conn\<lparr>client_is_writing := False, client_write_buffer := []\<rparr>))"
  by (simp add: on_client_write_done_locked_def grpc_endpoint_write_def buf_defs Let_def)

text \<open>
  C2. A successful read on one side, while the other side is writing, appends the bytes
  read to the other side's deferred buffer and issues no write; otherwise it moves them
  into the other side's write buffer, takes one reference, sets \<open>is_writing\<close> and issues the
  write; in both cases the read is issued again. A successful write clears \<open>is_writing\<close> and
  the write buffer; a deferred buffer that holds bytes is moved into the write buffer and
  written under the same reference with \<open>is_writing\<close> set, otherwise the reference of the
  write is dropped.
\<close>

theorem relay_success_steps:
  "on_client_read_done_locked conn absl_OkStatus =
     (if server_is_writing conn
      then conn\<lparr>client_read_buffer := [],
                server_deferred_write_buffer :=
                  server_deferred_write_buffer conn @ client_read_buffer conn,
                pending := pending conn @ [On_client_read_done],
                effects := effects conn @
                  [Endpoint_read (client_endpoint conn) On_client_read_done]\<rparr>
      else conn\<lparr>client_read_buffer := [],
                server_write_buffer := server_write_buffer conn @ client_read_buffer conn,
                refcount := refcount conn + 1,
                server_is_writing := True,
                pending := pending conn @ [On_server_write_done, On_client_read_done],
                effects := effects conn @
                  [Endpoint_write (server_endpoint conn)
                     (server_write_buffer conn @ client_read_buffer conn) On_server_write_done,
                   Endpoint_read (client_endpoint conn) On_client_read_done]\<rparr>) \<and>
   on_server_read_done_locked conn absl_OkStatus =
     (if client_is_writing conn
      then conn\<lparr>server_read_buffer := [],
                client_deferred_write_buffer :=
                  client_deferred_write_buffer conn @ server_read_buffer conn,
                pending := pending conn @ [On_server_read_done],
                effects := effects conn @
                  [Endpoint_read (server_endpoint conn) On_server_read_done]\<rparr>
      else conn\<lparr>server_read_buffer := [],
                client_write_buffer := client_write_buffer conn @ server_read_buffer conn,
                refcount := refcount conn + 1,
                client_is_writing := True,
                pending := pending conn @ [On_client_write_done, On_server_read_done],
                effects := effects conn @
                  [Endpoint_write (client_endpoint conn)
                     (client_write_buffer conn @ server_read_buffer conn) On_client_write_done,
                   Endpoint_read (server_endpoint conn) On_server_read_done]\<rparr>) \<and>
   on_server_write_done_locked conn absl_OkStatus =
     (if slice_buffer_length (server_deferred_write_buffer conn) > 0
      then conn\<lparr>server_is_writing := True,
                server_write_buffer := server_deferred_write_buffer conn,
                server_deferred_write_buffer := [],
                pending := pending conn @ [On_server_write_done],
                effects := effects conn @
                  [Endpoint_write (server_endpoint conn) (server_deferred_write_buffer conn)
                     On_server_write_done]\<rparr>
      else proxy_connection_unref
             (conn\<lparr>server_is_writing := False, server_write_buffer := []\<rparr>)) \<and>
   on_client_write_done_locked conn absl_OkStatus =
     (if slice_buffer_length (client_deferred_write_buffer conn) > 0
      then conn\<lparr>client_is_writing := True,
                client_write_buffer := client_deferred_write_buffer conn,
                client_deferred_write_buffer := [],
                pending := pending conn @ [On_client_write_done],
                effects := effects conn @
                  [Endpoint_write (client_endpoint conn) (client_deferred_write_buffer conn)
                     On_client_write_done]\<rparr>
      else proxy_connection_unref
             (conn\<lparr>client_is_writing := False, client_write_buffer := []\<rparr>)) \<and>
   refcount (proxy_connection_unref conn) = refcount conn - 1"
  using client_read_ok [of conn] server_read_ok [of conn] server_write_ok [of conn]
    client_write_ok [of conn]
  by (simp add: io_defs Let_def)

subsection \<open>The failure flags\<close>

lemma nff_unref: "no_failed_flag (proxy_connection_unref c) = no_failed_flag c"
  by (simp add: no_failed_flag_def io_defs Let_def)

lemma nff_failed: "no_failed_flag (proxy_connection_failed c f e) = no_failed_flag c"
  by (simp add: proxy_connection_failed_def Let_def nff_unref)
     (simp add: no_failed_flag_def grpc_endpoint_shutdown_def emit_def)

lemma nff_handlers:
  "no_failed_flag (on_client_read_done_locked c e) = no_failed_flag c"
  "no_failed_flag (on_server_read_done_locked c e) = no_failed_flag c"
  "no_failed_flag (on_client_write_done_locked c e) = no_failed_flag c"
  "no_failed_flag (on_server_write_done_locked c e) = no_failed_flag c"
  "no_failed_flag (on_write_response_done_locked c e) = no_failed_flag c"
  "no_failed_flag (on_server_connect_done_locked c e) = no_failed_flag c"
  by (simp_all add: handler_defs Let_def nff_failed nff_unref split: prod.splits)
     (simp_all add: no_failed_flag_def io_defs buf_defs Let_def)

lemma nff_resolve:
  "resolve_and_connect env c e = Inr c' \<Longrightarrow> no_failed_flag c' = no_failed_flag c"
  by (auto simp: resolve_and_connect_def Let_def nff_failed split: sum.splits if_splits)
     (simp_all add: no_failed_flag_def io_defs)

lemma nff_auth:
  "check_auth_and_connect env c e = Inr c' \<Longrightarrow> no_failed_flag c' = no_failed_flag c"
  by (auto simp: check_auth_and_connect_def nff_failed dest: nff_resolve
        split: option.splits if_splits)

lemma nff_read_request:
  "on_read_request_done_locked env c e = Inr c' \<Longrightarrow> no_failed_flag c' = no_failed_flag c"
  by (auto simp: on_read_request_done_locked_def Let_def nff_failed dest!: nff_auth
        split: prod.splits if_splits)
     (simp_all add: no_failed_flag_def io_defs buf_defs)

lemma nff_deliver: "no_failed_flag (deliver e c) = no_failed_flag c"
  by (cases e) (simp_all add: no_failed_flag_def)

lemma nff_step:
  "step env c e = Inr c' \<Longrightarrow> no_failed_flag c' = no_failed_flag c"
  by (cases e)
     (auto simp: step_def nff_handlers nff_deliver dest!: nff_read_request split: if_splits,
      simp_all add: no_failed_flag_def)

lemma nff_run:
  "run env c es = Inr c' \<Longrightarrow> no_failed_flag c' = no_failed_flag c"
  by (induction es arbitrary: c) (auto split: sum.splits dest: nff_step)

lemma nff_accept: "no_failed_flag (on_accept endpoint)"
  by (simp add: no_failed_flag_def on_accept_def grpc_endpoint_read_def)

text \<open>
  C9. In every state a connection reaches, the four flags \<open>client_read_failed\<close>,
  \<open>client_write_failed\<close>, \<open>server_read_failed\<close> and \<open>server_write_failed\<close> are false. So
  for a relay failure the policy chooses the client only on an origin read failure while
  the client is not writing, and the origin only on a client read failure while the origin
  is not writing.
\<close>

theorem failed_flags_never_set:
  assumes "run env (on_accept endpoint) es = Inr conn"
  shows "\<not> client_read_failed conn \<and> \<not> client_write_failed conn \<and>
         \<not> server_read_failed conn \<and> \<not> server_write_failed conn \<and>
         shutdown_client conn failure =
           (failure = SETUP_FAILED \<or>
            failure = SERVER_READ_FAILED \<and> \<not> client_is_writing conn) \<and>
         shutdown_server conn failure =
           (failure = SETUP_FAILED \<or>
            failure = CLIENT_READ_FAILED \<and> \<not> server_is_writing conn)"
proof -
  have "no_failed_flag conn"
    using nff_run [OF assms] nff_accept by simp
  then show ?thesis
    by (cases failure) (simp_all add: no_failed_flag_def shutdown_client_def shutdown_server_def)
qed

theorem failed_flags_never_set_witness:
  "(case run example_env (on_accept Client_endpoint) (example_handshake @ example_teardown) of
      Inl s \<Rightarrow> False
    | Inr conn \<Rightarrow>
        \<not> client_read_failed conn \<and> \<not> client_write_failed conn \<and>
        \<not> server_read_failed conn \<and> \<not> server_write_failed conn \<and>
        shutdown_client conn SERVER_READ_FAILED = (\<not> client_is_writing conn) \<and>
        shutdown_server conn SERVER_READ_FAILED = False)"
proof -
  obtain conn where
    r: "run example_env (on_accept Client_endpoint) (example_handshake @ example_teardown) = Inr conn"
    by (simp add: example_defs example_teardown_def step_def handler_defs io_defs buf_defs
          policy_defs Let_def)
  show ?thesis
    using failed_flags_never_set [OF r, of SERVER_READ_FAILED] r by simp
qed

subsection \<open>Shutting an endpoint down once\<close>

lemma shutdown_count_append:
  "shutdown_count ep (xs @ ys) = shutdown_count ep xs + shutdown_count ep ys"
  by (simp add: shutdown_count_def shutdown_calls_append)

lemma shutdown_count_simps:
  "shutdown_count ep [] = 0"
  "shutdown_count ep (Endpoint_shutdown ep' err # as) =
     (if ep' = ep then 1 else 0) + shutdown_count ep as"
  "shutdown_count ep (Endpoint_read ep' cb # as) = shutdown_count ep as"
  "shutdown_count ep (Endpoint_write ep' buf cb # as) = shutdown_count ep as"
  "shutdown_count ep (Endpoint_destroy ep' # as) = shutdown_count ep as"
  "shutdown_count ep (Lookup_hostname h s # as) = shutdown_count ep as"
  "shutdown_count ep (Tcp_client_connect a d cb # as) = shutdown_count ep as"
  "shutdown_count ep (Pollset_set_destroy # as) = shutdown_count ep as"
  "shutdown_count ep (Slice_buffer_destroy b # as) = shutdown_count ep as"
  "shutdown_count ep (Http_parser_destroy # as) = shutdown_count ep as"
  "shutdown_count ep (Http_request_destroy # as) = shutdown_count ep as"
  "shutdown_count ep (Proxy_users_unref # as) = shutdown_count ep as"
  "shutdown_count ep (Gpr_free # as) = shutdown_count ep as"
  by (simp_all add: shutdown_count_def)

lemmas sc = shutdown_count_append shutdown_count_simps

lemma si_unref: "shutdown_inv (proxy_connection_unref c) = shutdown_inv c"
  by (simp add: shutdown_inv_def io_defs Let_def sc)

lemma si_failed: "shutdown_inv c \<Longrightarrow> shutdown_inv (proxy_connection_failed c f e)"
  by (simp add: proxy_connection_failed_def Let_def si_unref)
     (auto simp: shutdown_inv_def grpc_endpoint_shutdown_def emit_def sc)

lemma si_fields:
  "shutdown_inv (c\<lparr>client_is_writing := w\<rparr>) = shutdown_inv c"
  "shutdown_inv (c\<lparr>server_is_writing := w\<rparr>) = shutdown_inv c"
  "shutdown_inv (c\<lparr>http_parser := p\<rparr>) = shutdown_inv c"
  "shutdown_inv (c\<lparr>http_request := r\<rparr>) = shutdown_inv c"
  "shutdown_inv (c\<lparr>client_read_buffer := b\<rparr>) = shutdown_inv c"
  "shutdown_inv (c\<lparr>pending := q\<rparr>) = shutdown_inv c"
  "shutdown_inv (grpc_endpoint_read ep cb c) = shutdown_inv c"
  by (simp_all add: shutdown_inv_def io_defs sc)

lemma si_handlers:
  "shutdown_inv c \<Longrightarrow> shutdown_inv (on_client_read_done_locked c e)"
  "shutdown_inv c \<Longrightarrow> shutdown_inv (on_server_read_done_locked c e)"
  "shutdown_inv c \<Longrightarrow> shutdown_inv (on_client_write_done_locked c e)"
  "shutdown_inv c \<Longrightarrow> shutdown_inv (on_server_write_done_locked c e)"
  "shutdown_inv c \<Longrightarrow> shutdown_inv (on_write_response_done_locked c e)"
  "shutdown_inv c \<Longrightarrow> shutdown_inv (on_server_connect_done_locked c e)"
  by (simp_all add: handler_defs Let_def si_failed si_unref si_fields split: prod.splits)
     (auto simp: shutdown_inv_def io_defs buf_defs Let_def sc)

lemma si_resolve:
  "shutdown_inv c \<Longrightarrow> resolve_and_connect env c e = Inr c' \<Longrightarrow> shutdown_inv c'"
  by (auto simp: resolve_and_connect_def Let_def split: sum.splits if_splits
        intro!: si_failed)
     (simp_all add: shutdown_inv_def io_defs sc)

lemma si_auth:
  "shutdown_inv c \<Longrightarrow> check_auth_and_connect env c e = Inr c' \<Longrightarrow> shutdown_inv c'"
  by (auto simp: check_auth_and_connect_def si_failed dest: si_resolve
        split: option.splits if_splits)

lemma si_read_request:
  assumes "shutdown_inv c" and "on_read_request_done_locked env c e = Inr c'"
  shows "shutdown_inv c'"
  using assms
  by (auto simp: on_read_request_done_locked_def Let_def si_fields si_failed
        split: prod.splits if_splits elim: si_auth[rotated])

lemma si_deliver: "shutdown_inv c \<Longrightarrow> shutdown_inv (deliver e c)"
  by (cases e) (simp_all add: shutdown_inv_def)

lemma si_run_closure:
  "shutdown_inv d \<Longrightarrow> run_closure env e d = Inr c' \<Longrightarrow> shutdown_inv c'"
  by (cases e) (auto intro: si_handlers si_read_request)

lemma step_run_closure:
  "step env c e = Inr c' \<Longrightarrow>
   run_closure env e (deliver e (c\<lparr>pending := remove1 (closure_of e) (pending c)\<rparr>)) = Inr c'"
  by (simp add: step_def split: if_splits)

lemma si_step:
  assumes "shutdown_inv c" and "step env c e = Inr c'"
  shows "shutdown_inv c'"
proof -
  have "shutdown_inv (deliver e (c\<lparr>pending := remove1 (closure_of e) (pending c)\<rparr>))"
    using assms(1) by (simp add: si_deliver si_fields)
  then show ?thesis
    using step_run_closure [OF assms(2)] by (rule si_run_closure)
qed

lemma si_run:
  "shutdown_inv c \<Longrightarrow> run env c es = Inr c' \<Longrightarrow> shutdown_inv c'"
  by (induction es arbitrary: c) (auto split: sum.splits dest: si_step)

lemma si_accept: "shutdown_inv (on_accept Client_endpoint)"
  by (simp add: shutdown_inv_def on_accept_def io_defs sc)

lemma fk_unref: "flags_kept a b (proxy_connection_unref c) = flags_kept a b c"
  by (simp add: flags_kept_def io_defs Let_def)

lemma fk_failed: "flags_kept a b c \<Longrightarrow> flags_kept a b (proxy_connection_failed c f e)"
  by (simp add: proxy_connection_failed_def Let_def fk_unref)
     (auto simp: flags_kept_def grpc_endpoint_shutdown_def emit_def)

lemma fk_fields:
  "flags_kept a b (c\<lparr>client_is_writing := w\<rparr>) = flags_kept a b c"
  "flags_kept a b (c\<lparr>server_is_writing := w\<rparr>) = flags_kept a b c"
  "flags_kept a b (c\<lparr>http_parser := p\<rparr>) = flags_kept a b c"
  "flags_kept a b (c\<lparr>http_request := r\<rparr>) = flags_kept a b c"
  "flags_kept a b (c\<lparr>client_read_buffer := buf\<rparr>) = flags_kept a b c"
  "flags_kept a b (c\<lparr>pending := q\<rparr>) = flags_kept a b c"
  "flags_kept a b (grpc_endpoint_read ep cb c) = flags_kept a b c"
  by (simp_all add: flags_kept_def io_defs)

lemma fk_handlers:
  "flags_kept a b c \<Longrightarrow> flags_kept a b (on_client_read_done_locked c e)"
  "flags_kept a b c \<Longrightarrow> flags_kept a b (on_server_read_done_locked c e)"
  "flags_kept a b c \<Longrightarrow> flags_kept a b (on_client_write_done_locked c e)"
  "flags_kept a b c \<Longrightarrow> flags_kept a b (on_server_write_done_locked c e)"
  "flags_kept a b c \<Longrightarrow> flags_kept a b (on_write_response_done_locked c e)"
  "flags_kept a b c \<Longrightarrow> flags_kept a b (on_server_connect_done_locked c e)"
  by (simp_all add: handler_defs Let_def fk_failed fk_unref fk_fields split: prod.splits)
     (auto simp: flags_kept_def io_defs buf_defs Let_def)

lemma fk_resolve:
  "flags_kept a b c \<Longrightarrow> resolve_and_connect env c e = Inr c' \<Longrightarrow> flags_kept a b c'"
  by (auto simp: resolve_and_connect_def Let_def split: sum.splits if_splits
        intro!: fk_failed)
     (simp_all add: flags_kept_def io_defs)

lemma fk_auth:
  "flags_kept a b c \<Longrightarrow> check_auth_and_connect env c e = Inr c' \<Longrightarrow> flags_kept a b c'"
  by (auto simp: check_auth_and_connect_def fk_failed dest: fk_resolve
        split: option.splits if_splits)

lemma fk_read_request:
  assumes "flags_kept a b c" and "on_read_request_done_locked env c e = Inr c'"
  shows "flags_kept a b c'"
  using assms
  by (auto simp: on_read_request_done_locked_def Let_def fk_fields fk_failed
        split: prod.splits if_splits elim: fk_auth[rotated])

lemma fk_deliver: "flags_kept a b c \<Longrightarrow> flags_kept a b (deliver e c)"
  by (cases e) (simp_all add: flags_kept_def)

lemma fk_run_closure:
  "flags_kept a b d \<Longrightarrow> run_closure env e d = Inr c' \<Longrightarrow> flags_kept a b c'"
  by (cases e) (auto intro: fk_handlers fk_read_request)

lemma fk_step:
  assumes "flags_kept a b c" and "step env c e = Inr c'"
  shows "flags_kept a b c'"
proof -
  have "flags_kept a b (deliver e (c\<lparr>pending := remove1 (closure_of e) (pending c)\<rparr>))"
    using assms(1) by (simp add: fk_deliver fk_fields)
  then show ?thesis
    using step_run_closure [OF assms(2)] by (rule fk_run_closure)
qed

lemma fk_run:
  "flags_kept a b c \<Longrightarrow> run env c es = Inr c' \<Longrightarrow> flags_kept a b c'"
  by (induction es arbitrary: c) (auto split: sum.splits dest: fk_step)

text \<open>
  C8. Take a connection at any point of its life and at any later point. A shutdown flag
  that was set at the first point is set at the second: the flags only go from false to
  true. At every point each endpoint has been shut down once if its flag is set and never
  otherwise, so at most once, however often the shutdown policy has run.
\<close>

theorem shutdown_at_most_once:
  assumes "run env (on_accept Client_endpoint) es = Inr conn"
    and "run env conn es' = Inr conn'"
  shows "(client_shutdown conn \<longrightarrow> client_shutdown conn') \<and>
         (server_shutdown conn \<longrightarrow> server_shutdown conn') \<and>
         shutdown_count Client_endpoint (effects conn') = (if client_shutdown conn' then 1 else 0) \<and>
         shutdown_count Server_endpoint (effects conn') = (if server_shutdown conn' then 1 else 0) \<and>
         shutdown_count Client_endpoint (effects conn') \<le> 1 \<and>
         shutdown_count Server_endpoint (effects conn') \<le> 1"
proof -
  have "flags_kept (client_shutdown conn) (server_shutdown conn) conn"
    by (simp add: flags_kept_def)
  then have kept: "flags_kept (client_shutdown conn) (server_shutdown conn) conn'"
    using assms(2) by (rule fk_run)
  have "shutdown_inv conn"
    using si_accept assms(1) by (rule si_run)
  then have "shutdown_inv conn'"
    using assms(2) by (rule si_run)
  then show ?thesis
    using kept by (simp add: shutdown_inv_def flags_kept_def)
qed

theorem shutdown_at_most_once_witness:
  "(case run example_env (on_accept Client_endpoint)
           (example_handshake @ [Client_read_done (grpc_error ''EOF'') []]) of
      Inl s \<Rightarrow> False
    | Inr conn \<Rightarrow>
        (case run example_env conn [Server_read_done (grpc_error ''EOF'') []] of
           Inl s \<Rightarrow> False
         | Inr conn' \<Rightarrow>
             server_shutdown conn \<and> server_shutdown conn' \<and> client_shutdown conn' \<and>
             shutdown_count Client_endpoint (effects conn') = 1 \<and>
             shutdown_count Server_endpoint (effects conn') = 1))"
proof -
  obtain conn where
    r: "run example_env (on_accept Client_endpoint)
          (example_handshake @ [Client_read_done (grpc_error ''EOF'') []]) = Inr conn"
    and s: "server_shutdown conn" and w: "\<not> client_is_writing conn"
    and p: "pending conn = [On_server_read_done]" and f: "\<not> freed conn"
    by (simp add: example_defs step_def handler_defs io_defs buf_defs policy_defs Let_def)
  obtain conn' where
    r': "run example_env conn [Server_read_done (grpc_error ''EOF'') []] = Inr conn'"
    and s': "client_shutdown conn'"
    using w p f
    by (simp add: step_def handler_defs io_defs buf_defs policy_defs Let_def)
  show ?thesis
    using shutdown_at_most_once [OF r r'] r r' s s' by simp
qed

subsection \<open>Failed relay completions\<close>

text \<open>
  C3. The claim is that a failed relay read sets the reading side's \<open>read_failed\<close> flag and
  a failed relay write sets the writing side's \<open>write_failed\<close> flag before the policy
  runs. The handlers do not: after a failed client read \<open>client_read_failed\<close> is still
  false, and after a failed origin write \<open>server_write_failed\<close> is still false (while
  \<open>server_is_writing\<close> has been cleared).
\<close>

theorem relay_failure_leaves_flags_unset:
  "(case run example_env (on_accept Client_endpoint)
           (example_handshake @ [Client_read_done (grpc_error ''EOF'') []]) of
      Inl s \<Rightarrow> False
    | Inr conn \<Rightarrow> \<not> client_read_failed conn) \<and>
   (case run example_env (on_accept Client_endpoint)
           (example_handshake @
            [Client_read_done absl_OkStatus [''a''], Server_write_done (grpc_error ''EPIPE'')]) of
      Inl s \<Rightarrow> False
    | Inr conn \<Rightarrow> \<not> server_write_failed conn \<and> \<not> server_is_writing conn)"
  by (simp add: example_defs step_def handler_defs io_defs buf_defs policy_defs Let_def)

subsection \<open>The handshake: authentication and resolution\<close>

lemma basic_prefix: "(take 6 v = ''Basic '') = prefix ''Basic '' v"
proof
  assume "take 6 v = ''Basic ''"
  then have "v = ''Basic '' @ drop 6 v"
    using append_take_drop_id [of 6 v] by simp
  then show "prefix ''Basic '' v"
    using prefixI by blast
next
  assume "prefix ''Basic '' v"
  then show "take 6 v = ''Basic ''"
    by (auto simp: prefix_def)
qed

lemma client_authenticated_find:
  "client_authenticated env hdrs cred =
     (case find (\<lambda>h. hdr_key h = ''Proxy-Authorization'') hdrs of
        None \<Rightarrow> False
      | Some h \<Rightarrow> prefix ''Basic '' (hdr_value h) \<and>
                  grpc_base64_decode env (drop 6 (hdr_value h)) = cred)"
  by (induction hdrs) (simp_all add: proxy_auth_header_matches_def basic_prefix)

lemma lookup_calls_append: "lookup_calls (xs @ ys) = lookup_calls xs @ lookup_calls ys"
  by (induction xs rule: lookup_calls.induct) simp_all

lemma lookup_calls_failed:
  "lookup_calls (effects (proxy_connection_failed c f e)) = lookup_calls (effects c)"
  by (simp add: proxy_connection_failed_def io_defs Let_def lookup_calls_append)

lemma lookup_calls_resolve:
  "resolve_and_connect env c e = Inr c' \<Longrightarrow>
   lookup_calls (effects c') = lookup_calls (effects c) @ [(req_path (http_request c), ''80'')]"
  by (auto simp: resolve_and_connect_def Let_def lookup_calls_failed
        split: sum.splits if_splits)
     (simp_all add: io_defs lookup_calls_append)

lemma resolve_not_teardown:
  "resolve_and_connect env c e \<noteq> Inr (proxy_connection_failed c SETUP_FAILED err)"
  using lookup_calls_resolve [of env c e "proxy_connection_failed c SETUP_FAILED err"]
  by (auto simp: lookup_calls_failed)

lemma read_request_validated:
  assumes "feed_slices env (http_parser conn, http_request conn) (client_read_buffer conn) =
             (absl_OkStatus, parser, request)"
    and "parser_state parser = GRPC_HTTP_BODY"
    and "req_method request = ''CONNECT''"
  shows "on_read_request_done_locked env conn absl_OkStatus =
           check_auth_and_connect env
             (conn\<lparr>http_parser := parser, http_request := request, client_read_buffer := []\<rparr>)
             absl_OkStatus"
  using assms by (simp add: on_read_request_done_locked_def buf_defs Let_def)

text \<open>
  C5. Take a request that has been read and parsed to its end and whose method is CONNECT;
  \<open>c\<close> is the connection with the parsed request. When no credential is configured the
  handler goes on to resolve the address. When one is configured, it goes on exactly when
  the first header with key \<open>Proxy-Authorization\<close> has a value that starts with the six
  bytes \<open>Basic\<close> and a space, and whose rest decodes to the credential; with no such header,
  or with a mismatch, it tears the connection down as a setup failure. Going on and
  tearing down are different results.
\<close>

theorem proxy_auth_check:
  assumes "feed_slices env (http_parser conn, http_request conn) (client_read_buffer conn) =
             (absl_OkStatus, parser, request)"
    and "parser_state parser = GRPC_HTTP_BODY"
    and "req_method request = ''CONNECT''"
    and "c = conn\<lparr>http_parser := parser, http_request := request, client_read_buffer := []\<rparr>"
  shows "on_read_request_done_locked env conn absl_OkStatus =
           (case proxy_auth_creds env of
              None \<Rightarrow> resolve_and_connect env c absl_OkStatus
            | Some cred \<Rightarrow>
                (case find (\<lambda>h. hdr_key h = ''Proxy-Authorization'') (req_hdrs request) of
                   None \<Rightarrow>
                     Inr (proxy_connection_failed c SETUP_FAILED
                            (grpc_error ''HTTP Connect could not verify authentication''))
                 | Some h \<Rightarrow>
                     if prefix ''Basic '' (hdr_value h) \<and>
                        grpc_base64_decode env (drop 6 (hdr_value h)) = cred
                     then resolve_and_connect env c absl_OkStatus
                     else Inr (proxy_connection_failed c SETUP_FAILED
                                 (grpc_error ''HTTP Connect could not verify authentication'')))) \<and>
         resolve_and_connect env c absl_OkStatus \<noteq>
           Inr (proxy_connection_failed c SETUP_FAILED
                  (grpc_error ''HTTP Connect could not verify authentication''))"
  using read_request_validated [OF assms(1-3)] assms(4) resolve_not_teardown [of env c]
  by (simp add: check_auth_and_connect_def client_authenticated_find
        split: option.splits)

theorem proxy_auth_check_witness:
  "on_read_request_done_locked auth_env request_read absl_OkStatus =
     resolve_and_connect auth_env
       (request_read\<lparr>http_parser := (http_parser request_read)\<lparr>parser_state := GRPC_HTTP_BODY\<rparr>,
                     http_request := auth_request, client_read_buffer := []\<rparr>)
       absl_OkStatus"
proof -
  have f: "feed_slices auth_env (http_parser request_read, http_request request_read)
             (client_read_buffer request_read) =
           (absl_OkStatus, (http_parser request_read)\<lparr>parser_state := GRPC_HTTP_BODY\<rparr>,
            auth_request)"
    by (simp add: auth_env_def request_read_def example_defs grpc_endpoint_read_def)
  have b: "parser_state ((http_parser request_read)\<lparr>parser_state := GRPC_HTTP_BODY\<rparr>) =
           GRPC_HTTP_BODY"
    by simp
  have m: "req_method auth_request = ''CONNECT''"
    by (simp add: auth_request_def)
  show ?thesis
    using proxy_auth_check [OF f b m refl]
    by (simp add: auth_env_def auth_request_def example_env_def)
qed

text \<open>
  C7, as the code has it. For a request that has been read, parsed to its end, is a CONNECT
  and has passed the authentication check, the handler calls the resolver with the request
  path and the service \<open>"80"\<close>. A resolution error tears the connection down as a setup
  failure. A successful resolution with no address fails the assertion that follows the
  lookup, which aborts the process: the connection is not torn down. Otherwise the first
  address is dialed with the deadline ten seconds (10000 ms) after the current time.
\<close>

theorem validated_request_resolves:
  assumes "feed_slices env (http_parser conn, http_request conn) (client_read_buffer conn) =
             (absl_OkStatus, parser, request)"
    and "parser_state parser = GRPC_HTTP_BODY"
    and "req_method request = ''CONNECT''"
    and "case proxy_auth_creds env of
           None \<Rightarrow> True
         | Some cred \<Rightarrow> client_authenticated env (req_hdrs request) cred"
    and "c = conn\<lparr>http_parser := parser, http_request := request, client_read_buffer := [],
                  effects := effects conn @ [Lookup_hostname (req_path request) ''80'']\<rparr>"
  shows "on_read_request_done_locked env conn absl_OkStatus =
           (case LookupHostnameBlocking env (req_path request) ''80'' of
              Inl status \<Rightarrow> Inr (proxy_connection_failed c SETUP_FAILED absl_OkStatus)
            | Inr [] \<Rightarrow> Inl GPR_ASSERT_failed
            | Inr (address # addresses) \<Rightarrow>
                Inr (c\<lparr>pending := pending conn @ [On_server_connect_done],
                       effects := effects c @
                         [Tcp_client_connect address (Timestamp_Now env + 10 * 1000)
                            On_server_connect_done]\<rparr>))"
proof -
  let ?c0 = "conn\<lparr>http_parser := parser, http_request := request, client_read_buffer := []\<rparr>"
  have "check_auth_and_connect env ?c0 absl_OkStatus = resolve_and_connect env ?c0 absl_OkStatus"
    using assms(4) by (simp add: check_auth_and_connect_def split: option.splits)
  then have "on_read_request_done_locked env conn absl_OkStatus =
      resolve_and_connect env ?c0 absl_OkStatus"
    using read_request_validated [OF assms(1-3)] by simp
  then show ?thesis
    using assms(5)
    by (simp add: resolve_and_connect_def io_defs Let_def split: sum.splits list.splits)
qed

theorem validated_request_resolves_witness:
  "map_sum id effects (on_read_request_done_locked example_env request_read absl_OkStatus) =
     Inr [Endpoint_read Client_endpoint On_read_request_done,
          Lookup_hostname ''CONNECT x:1 HTTP/1.1'' ''80'',
          Tcp_client_connect ''CONNECT x:1 HTTP/1.1:80'' 10000 On_server_connect_done]"
proof -
  let ?p = "(http_parser request_read)\<lparr>parser_state := GRPC_HTTP_BODY\<rparr>"
  let ?r = "(http_request request_read)
              \<lparr>req_method := ''CONNECT'', req_path := ''CONNECT x:1 HTTP/1.1''\<rparr>"
  have f: "feed_slices example_env (http_parser request_read, http_request request_read)
             (client_read_buffer request_read) = (absl_OkStatus, ?p, ?r)"
    by (simp add: request_read_def example_defs grpc_endpoint_read_def)
  have b: "parser_state ?p = GRPC_HTTP_BODY"
    by simp
  have m: "req_method ?r = ''CONNECT''"
    by simp
  have a: "case proxy_auth_creds example_env of
             None \<Rightarrow> True
           | Some cred \<Rightarrow> client_authenticated example_env (req_hdrs ?r) cred"
    by (simp add: example_env_def)
  show ?thesis
    using validated_request_resolves [OF f b m a refl]
    by (simp add: example_env_def request_read_def on_accept_def grpc_endpoint_read_def)
qed

text \<open>
  The resolver of \<open>empty_dns_env\<close> succeeds with an empty list; the handler then does not
  tear the connection down, it fails the assertion.
\<close>

theorem empty_resolution_aborts:
  "run empty_dns_env (on_accept Client_endpoint)
     [Read_request_done absl_OkStatus [''example.test'']] = Inl GPR_ASSERT_failed"
  by (simp add: empty_dns_env_def example_defs step_def handler_defs io_defs buf_defs Let_def)

subsection \<open>The phases of a connection\<close>

lemma bytes_written_append:
  "bytes_written ep cb (xs @ ys) = bytes_written ep cb xs @ bytes_written ep cb ys"
  by (induction ep cb xs rule: bytes_written.induct) simp_all

lemma unref_fields:
  "pending (proxy_connection_unref c) = pending c"
  "refcount (proxy_connection_unref c) = refcount c - 1"
  "freed (proxy_connection_unref c) = (freed c \<or> refcount c = 1)"
  "client_endpoint (proxy_connection_unref c) = client_endpoint c"
  "server_endpoint (proxy_connection_unref c) = server_endpoint c"
  "client_is_writing (proxy_connection_unref c) = client_is_writing c"
  "server_is_writing (proxy_connection_unref c) = server_is_writing c"
  "client_read_buffer (proxy_connection_unref c) = (if refcount c = 1 then [] else client_read_buffer c)"
  "client_deferred_write_buffer (proxy_connection_unref c) =
     (if refcount c = 1 then [] else client_deferred_write_buffer c)"
  "client_write_buffer (proxy_connection_unref c) = (if refcount c = 1 then [] else client_write_buffer c)"
  "server_read_buffer (proxy_connection_unref c) = (if refcount c = 1 then [] else server_read_buffer c)"
  "server_deferred_write_buffer (proxy_connection_unref c) =
     (if refcount c = 1 then [] else server_deferred_write_buffer c)"
  "server_write_buffer (proxy_connection_unref c) = (if refcount c = 1 then [] else server_write_buffer c)"
  "bytes_written ep cb (effects (proxy_connection_unref c)) = bytes_written ep cb (effects c)"
  by (simp_all add: io_defs Let_def bytes_written_append)

lemma failed_fields:
  "pending (proxy_connection_failed c f e) = pending c"
  "refcount (proxy_connection_failed c f e) = refcount c - 1"
  "freed (proxy_connection_failed c f e) = (freed c \<or> refcount c = 1)"
  "client_endpoint (proxy_connection_failed c f e) = client_endpoint c"
  "server_endpoint (proxy_connection_failed c f e) = server_endpoint c"
  "client_is_writing (proxy_connection_failed c f e) = client_is_writing c"
  "server_is_writing (proxy_connection_failed c f e) = server_is_writing c"
  "client_read_buffer (proxy_connection_failed c f e) = (if refcount c = 1 then [] else client_read_buffer c)"
  "client_deferred_write_buffer (proxy_connection_failed c f e) =
     (if refcount c = 1 then [] else client_deferred_write_buffer c)"
  "client_write_buffer (proxy_connection_failed c f e) = (if refcount c = 1 then [] else client_write_buffer c)"
  "server_read_buffer (proxy_connection_failed c f e) = (if refcount c = 1 then [] else server_read_buffer c)"
  "server_deferred_write_buffer (proxy_connection_failed c f e) =
     (if refcount c = 1 then [] else server_deferred_write_buffer c)"
  "server_write_buffer (proxy_connection_failed c f e) = (if refcount c = 1 then [] else server_write_buffer c)"
  "bytes_written ep cb (effects (proxy_connection_failed c f e)) = bytes_written ep cb (effects c)"
  by (simp_all add: proxy_connection_failed_def unref_fields Let_def)
     (simp_all add: grpc_endpoint_shutdown_def emit_def bytes_written_append)

lemma handler_err:
  "on_client_read_done_locked c (grpc_error m) = proxy_connection_failed c CLIENT_READ_FAILED (grpc_error m)"
  "on_server_read_done_locked c (grpc_error m) = proxy_connection_failed c SERVER_READ_FAILED (grpc_error m)"
  "on_client_write_done_locked c (grpc_error m) =
     proxy_connection_failed (c\<lparr>client_is_writing := False\<rparr>) CLIENT_WRITE_FAILED (grpc_error m)"
  "on_server_write_done_locked c (grpc_error m) =
     proxy_connection_failed (c\<lparr>server_is_writing := False\<rparr>) SERVER_WRITE_FAILED (grpc_error m)"
  "on_write_response_done_locked c (grpc_error m) =
     proxy_connection_failed (c\<lparr>client_is_writing := False\<rparr>) SETUP_FAILED (grpc_error m)"
  "on_server_connect_done_locked c (grpc_error m) = proxy_connection_failed c SETUP_FAILED (grpc_error m)"
  by (simp_all add: handler_defs Let_def)

lemma write_response_ok:
  "refcount c \<noteq> - 1 \<Longrightarrow>
   on_write_response_done_locked c absl_OkStatus =
     c\<lparr>client_is_writing := False, client_write_buffer := [], refcount := refcount c + 1,
       pending := pending c @ [On_client_read_done, On_server_read_done],
       effects := effects c @
         [Endpoint_read (client_endpoint c) On_client_read_done,
          Endpoint_read (server_endpoint c) On_server_read_done]\<rparr>"
  by (simp add: on_write_response_done_locked_def io_defs buf_defs Let_def)

lemma server_connect_ok:
  "on_server_connect_done_locked c absl_OkStatus =
     c\<lparr>client_write_buffer := client_write_buffer c @ [connected_response],
       client_is_writing := True,
       pending := pending c @ [On_write_response_done],
       effects := effects c @
         [Endpoint_write (client_endpoint c) (client_write_buffer c @ [connected_response])
            On_write_response_done]\<rparr>"
  by (simp add: on_server_connect_done_locked_def io_defs buf_defs Let_def)

lemma resolve_cases:
  assumes "resolve_and_connect env c e = Inr c'"
  shows "(\<exists>er. c' = proxy_connection_failed
                  (c\<lparr>effects := effects c @ [Lookup_hostname (req_path (http_request c)) ''80'']\<rparr>)
                  SETUP_FAILED er) \<or>
         (\<exists>a d. c' = c\<lparr>pending := pending c @ [On_server_connect_done],
                       effects := effects c @
                         [Lookup_hostname (req_path (http_request c)) ''80'',
                          Tcp_client_connect a d On_server_connect_done]\<rparr>)"
  using assms
  by (auto simp: resolve_and_connect_def io_defs Let_def split: sum.splits if_splits)

lemma read_request_cases:
  assumes "on_read_request_done_locked env c e = Inr c'"
  shows "(\<exists>p r b ls er.
            c' = proxy_connection_failed
                   (c\<lparr>http_parser := p, http_request := r, client_read_buffer := b,
                      effects := effects c @ ls\<rparr>) SETUP_FAILED er \<and>
            (ls = [] \<or> (\<exists>h s. ls = [Lookup_hostname h s]))) \<or>
         (\<exists>p r. c' = c\<lparr>http_parser := p, http_request := r, client_read_buffer := [],
                       pending := pending c @ [On_read_request_done],
                       effects := effects c @
                         [Endpoint_read (client_endpoint c) On_read_request_done]\<rparr>) \<or>
         (\<exists>p r h s a d.
            c' = c\<lparr>http_parser := p, http_request := r, client_read_buffer := [],
                   pending := pending c @ [On_server_connect_done],
                   effects := effects c @
                     [Lookup_hostname h s, Tcp_client_connect a d On_server_connect_done]\<rparr>)"
proof (cases "ok e")
  case False
  then have "c' = proxy_connection_failed
                   (c\<lparr>http_parser := http_parser c, http_request := http_request c,
                      client_read_buffer := client_read_buffer c,
                      effects := effects c @ []\<rparr>) SETUP_FAILED e"
    using assms by (simp add: on_read_request_done_locked_def)
  then show ?thesis by blast
next
  case True
  obtain perr p r where f:
    "feed_slices env (http_parser c, http_request c) (client_read_buffer c) = (perr, p, r)"
    by (cases "feed_slices env (http_parser c, http_request c) (client_read_buffer c)") auto
  show ?thesis
  proof (cases "ok perr")
    case False
    then have "c' = proxy_connection_failed
                   (c\<lparr>http_parser := p, http_request := r,
                      client_read_buffer := client_read_buffer c,
                      effects := effects c @ []\<rparr>) SETUP_FAILED perr"
      using assms True f by (simp add: on_read_request_done_locked_def Let_def)
    then show ?thesis by blast
  next
    case perr_ok: True
    let ?c2 = "c\<lparr>http_parser := p, http_request := r, client_read_buffer := []\<rparr>"
    show ?thesis
    proof (cases "parser_state p = GRPC_HTTP_BODY")
      case False
      then have "c' = c\<lparr>http_parser := p, http_request := r, client_read_buffer := [],
                       pending := pending c @ [On_read_request_done],
                       effects := effects c @
                         [Endpoint_read (client_endpoint c) On_read_request_done]\<rparr>"
        using assms True f perr_ok
        by (simp add: on_read_request_done_locked_def Let_def buf_defs grpc_endpoint_read_def)
      then show ?thesis by blast
    next
      case body: True
      show ?thesis
      proof (cases "req_method r = ''CONNECT''")
        case False
        then have "c' = proxy_connection_failed
                   (c\<lparr>http_parser := p, http_request := r, client_read_buffer := [],
                      effects := effects c @ []\<rparr>) SETUP_FAILED
                   (grpc_error (''HTTP proxy got request method '' @ req_method r))"
          using assms True f perr_ok body
          by (simp add: on_read_request_done_locked_def Let_def buf_defs)
        then show ?thesis by blast
      next
        case connect: True
        have a: "check_auth_and_connect env ?c2 e = Inr c'"
          using assms True f perr_ok body connect
          by (simp add: on_read_request_done_locked_def Let_def buf_defs)
        show ?thesis
        proof (cases "check_auth_and_connect env ?c2 e = resolve_and_connect env ?c2 e")
          case False
          then have "c' = proxy_connection_failed
                   (c\<lparr>http_parser := p, http_request := r, client_read_buffer := [],
                      effects := effects c @ []\<rparr>) SETUP_FAILED
                   (grpc_error ''HTTP Connect could not verify authentication'')"
            using a by (auto simp: check_auth_and_connect_def split: option.splits if_splits)
          then show ?thesis by blast
        next
          case True
          then have "resolve_and_connect env ?c2 e = Inr c'"
            using a by simp
          from resolve_cases [OF this] show ?thesis
            by (elim disjE exE) (simp, blast)+
        qed
      qed
    qed
  qed
qed

lemma len_remove1: "x \<in> set xs \<Longrightarrow> int (length (remove1 x xs)) = int (length xs) - 1"
  by (induction xs) auto

lemma length1_unique: "length xs = Suc 0 \<Longrightarrow> x \<in> set xs \<Longrightarrow> y \<in> set xs \<Longrightarrow> x = y"
  by (cases xs) auto

lemmas inv_defs = relay_inv_def base_inv_def handshake_inv_def responding_inv_def

lemmas step_simps = step_def len_remove1 notin_set_remove1

lemmas bw = bytes_written_append slice_buffer_length_def

lemma step_enabled: "step env c e = Inr c' \<Longrightarrow> closure_of e \<in> set (pending c)"
  by (auto simp: step_def split: if_splits)

lemma step_RR:
  "step env c (Read_request_done err sl) = Inr c' \<Longrightarrow>
   \<not> freed c \<and> On_read_request_done \<in> set (pending c) \<and>
   on_read_request_done_locked env
     (c\<lparr>pending := remove1 On_read_request_done (pending c),
        client_read_buffer := client_read_buffer c @ (if ok err then sl else [])\<rparr>) err = Inr c'"
  by (auto simp: step_def split: if_splits)

lemma relay_step_CR:
  "relay_inv c \<Longrightarrow> step env c (Client_read_done err sl) = Inr c' \<Longrightarrow> relay_inv c'"
  by (cases err)
     (auto simp: step_simps client_read_ok handler_err failed_fields inv_defs split: if_splits)

lemma relay_step_SR:
  "relay_inv c \<Longrightarrow> step env c (Server_read_done err sl) = Inr c' \<Longrightarrow> relay_inv c'"
  by (cases err)
     (auto simp: step_simps server_read_ok handler_err failed_fields inv_defs split: if_splits)

lemma relay_step_CW:
  "relay_inv c \<Longrightarrow> step env c (Client_write_done err) = Inr c' \<Longrightarrow> relay_inv c'"
  by (cases err)
     (auto simp: step_simps client_write_ok handler_err failed_fields unref_fields inv_defs
        split: if_splits)

lemma relay_step_SW:
  "relay_inv c \<Longrightarrow> step env c (Server_write_done err) = Inr c' \<Longrightarrow> relay_inv c'"
  by (cases err)
     (auto simp: step_simps server_write_ok handler_err failed_fields unref_fields inv_defs
        split: if_splits)

lemma hs_step_RR:
  assumes "handshake_inv c On_read_request_done"
    and "step env c (Read_request_done err sl) = Inr c'"
  shows "handshake_inv c' On_read_request_done \<or> handshake_inv c' On_server_connect_done \<or>
         relay_inv c'"
  using read_request_cases [OF conjunct2 [OF conjunct2 [OF step_RR [OF assms(2)]]]] assms(1)
  by (elim disjE exE conjE) (auto simp: failed_fields inv_defs)

lemma hs_step_SC:
  assumes "handshake_inv c On_server_connect_done"
    and "step env c (Server_connect_done err) = Inr c'"
  shows "responding_inv c' \<or> relay_inv c'"
  using assms
  by (cases err)
     (auto simp: step_simps server_connect_ok handler_err failed_fields inv_defs split: if_splits)

lemma hs_step_WR:
  assumes "responding_inv c"
    and "step env c (Write_response_done err) = Inr c'"
  shows "relay_inv c'"
  using assms
  by (cases err)
     (auto simp: step_simps write_response_ok handler_err failed_fields inv_defs split: if_splits)

lemma conn_inv_step:
  assumes "conn_inv c" and "step env c e = Inr c'"
  shows "conn_inv c'"
proof -
  have en: "closure_of e \<in> set (pending c)"
    using assms(2) by (auto simp: step_def split: if_splits)
  show ?thesis
  proof (cases e)
    case (Read_request_done err sl)
    then have "handshake_inv c On_read_request_done"
      using assms(1) en by (auto simp: conn_inv_def inv_defs)
    from hs_step_RR [OF this assms(2) [unfolded Read_request_done]] show ?thesis
      by (auto simp: conn_inv_def)
  next
    case (Server_connect_done err)
    then have "handshake_inv c On_server_connect_done"
      using assms(1) en by (auto simp: conn_inv_def inv_defs)
    from hs_step_SC [OF this assms(2) [unfolded Server_connect_done]] show ?thesis
      by (auto simp: conn_inv_def)
  next
    case (Write_response_done err)
    then have "responding_inv c"
      using assms(1) en by (auto simp: conn_inv_def inv_defs)
    from hs_step_WR [OF this assms(2) [unfolded Write_response_done]] show ?thesis
      by (auto simp: conn_inv_def)
  next
    case (Client_read_done err sl)
    then have "relay_inv c"
      using assms(1) en by (auto simp: conn_inv_def inv_defs)
    from relay_step_CR [OF this assms(2) [unfolded Client_read_done]] show ?thesis
      by (auto simp: conn_inv_def)
  next
    case (Client_write_done err)
    then have "relay_inv c"
      using assms(1) en by (auto simp: conn_inv_def inv_defs)
    from relay_step_CW [OF this assms(2) [unfolded Client_write_done]] show ?thesis
      by (auto simp: conn_inv_def)
  next
    case (Server_read_done err sl)
    then have "relay_inv c"
      using assms(1) en by (auto simp: conn_inv_def inv_defs)
    from relay_step_SR [OF this assms(2) [unfolded Server_read_done]] show ?thesis
      by (auto simp: conn_inv_def)
  next
    case (Server_write_done err)
    then have "relay_inv c"
      using assms(1) en by (auto simp: conn_inv_def inv_defs)
    from relay_step_SW [OF this assms(2) [unfolded Server_write_done]] show ?thesis
      by (auto simp: conn_inv_def)
  qed
qed

lemma conn_inv_run:
  "conn_inv c \<Longrightarrow> run env c es = Inr c' \<Longrightarrow> conn_inv c'"
  by (induction es arbitrary: c) (auto split: sum.splits dest: conn_inv_step)

lemma conn_inv_accept: "conn_inv (on_accept Client_endpoint)"
  by (simp add: conn_inv_def inv_defs on_accept_def grpc_endpoint_read_def)

lemma conn_inv_phase:
  assumes "conn_inv c"
  shows "On_read_request_done \<in> set (pending c) \<Longrightarrow> handshake_inv c On_read_request_done"
    and "On_server_connect_done \<in> set (pending c) \<Longrightarrow> handshake_inv c On_server_connect_done"
    and "On_write_response_done \<in> set (pending c) \<Longrightarrow> responding_inv c"
    and "On_client_read_done \<in> set (pending c) \<Longrightarrow> relay_inv c"
    and "On_server_read_done \<in> set (pending c) \<Longrightarrow> relay_inv c"
    and "On_client_write_done \<in> set (pending c) \<Longrightarrow> relay_inv c"
    and "On_server_write_done \<in> set (pending c) \<Longrightarrow> relay_inv c"
  using assms by (auto simp: conn_inv_def inv_defs)

subsection \<open>Relayed bytes\<close>

lemma origin_stream_step:
  assumes "conn_inv c" and "origin_stream_inv c bytes" and "step env c e = Inr c'"
    and "\<not> origin_write_failed e"
  shows "origin_stream_inv c' (bytes @ client_bytes_read [e])"
proof (cases e)
  case (Read_request_done err sl)
  have h: "handshake_inv c On_read_request_done"
    using conn_inv_phase(1) [OF assms(1)] step_enabled [OF assms(3)] Read_request_done by simp
  show ?thesis
    using read_request_cases [OF conjunct2 [OF conjunct2 [OF step_RR [OF assms(3) [unfolded Read_request_done]]]]]
      h assms(2) Read_request_done
    by (elim disjE exE conjE) (auto simp: failed_fields inv_defs origin_stream_inv_def bw
          simp del: concat_eq_Nil_conv dest: length1_unique)
next
  case (Server_connect_done err)
  have h: "handshake_inv c On_server_connect_done"
    using conn_inv_phase(2) [OF assms(1)] step_enabled [OF assms(3)] Server_connect_done by simp
  show ?thesis
    using h assms(2,3) Server_connect_done
    by (cases err)
       (auto simp: step_simps server_connect_ok handler_err failed_fields inv_defs
          origin_stream_inv_def bw split: if_splits
          simp del: concat_eq_Nil_conv dest: length1_unique)
next
  case (Write_response_done err)
  have h: "responding_inv c"
    using conn_inv_phase(3) [OF assms(1)] step_enabled [OF assms(3)] Write_response_done by simp
  show ?thesis
    using h assms(2,3) Write_response_done
    by (cases err)
       (auto simp: step_simps write_response_ok handler_err failed_fields inv_defs
          origin_stream_inv_def bw split: if_splits
          simp del: concat_eq_Nil_conv dest: length1_unique)
next
  case (Client_read_done err sl)
  have h: "relay_inv c"
    using conn_inv_phase(4) [OF assms(1)] step_enabled [OF assms(3)] Client_read_done by simp
  show ?thesis
    using h assms(2,3) Client_read_done
    by (cases err)
       (auto simp: step_simps client_read_ok handler_err failed_fields inv_defs
          origin_stream_inv_def bw split: if_splits
          simp del: concat_eq_Nil_conv dest: length1_unique)
next
  case (Client_write_done err)
  have h: "relay_inv c"
    using conn_inv_phase(6) [OF assms(1)] step_enabled [OF assms(3)] Client_write_done by simp
  show ?thesis
    using h assms(2,3) Client_write_done
    by (cases err)
       (auto simp: step_simps client_write_ok handler_err failed_fields unref_fields inv_defs
          origin_stream_inv_def bw split: if_splits
          simp del: concat_eq_Nil_conv dest: length1_unique)
next
  case (Server_read_done err sl)
  have h: "relay_inv c"
    using conn_inv_phase(5) [OF assms(1)] step_enabled [OF assms(3)] Server_read_done by simp
  show ?thesis
    using h assms(2,3) Server_read_done
    by (cases err)
       (auto simp: step_simps server_read_ok handler_err failed_fields inv_defs
          origin_stream_inv_def bw split: if_splits
          simp del: concat_eq_Nil_conv dest: length1_unique)
next
  case (Server_write_done err)
  have h: "relay_inv c"
    using conn_inv_phase(7) [OF assms(1)] step_enabled [OF assms(3)] Server_write_done by simp
  show ?thesis
    using h assms(2,3,4) Server_write_done
    by (cases err)
       (auto simp: step_simps server_write_ok handler_err failed_fields unref_fields inv_defs
          origin_stream_inv_def bw split: if_splits
          simp del: concat_eq_Nil_conv dest: length1_unique)
qed

lemma client_stream_step:
  assumes "conn_inv c" and "client_stream_inv c bytes" and "step env c e = Inr c'"
    and "\<not> client_write_failed_event e"
  shows "client_stream_inv c' (bytes @ server_bytes_read [e])"
proof (cases e)
  case (Read_request_done err sl)
  have h: "handshake_inv c On_read_request_done"
    using conn_inv_phase(1) [OF assms(1)] step_enabled [OF assms(3)] Read_request_done by simp
  show ?thesis
    using read_request_cases [OF conjunct2 [OF conjunct2 [OF step_RR [OF assms(3) [unfolded Read_request_done]]]]]
      h assms(2) Read_request_done
    by (elim disjE exE conjE) (auto simp: failed_fields inv_defs client_stream_inv_def bw
          simp del: concat_eq_Nil_conv dest: length1_unique)
next
  case (Server_connect_done err)
  have h: "handshake_inv c On_server_connect_done"
    using conn_inv_phase(2) [OF assms(1)] step_enabled [OF assms(3)] Server_connect_done by simp
  show ?thesis
    using h assms(2,3,4) Server_connect_done
    by (cases err)
       (auto simp: step_simps server_connect_ok handler_err failed_fields inv_defs
          client_stream_inv_def bw split: if_splits
          simp del: concat_eq_Nil_conv dest: length1_unique)
next
  case (Write_response_done err)
  have h: "responding_inv c"
    using conn_inv_phase(3) [OF assms(1)] step_enabled [OF assms(3)] Write_response_done by simp
  show ?thesis
    using h assms(2,3,4) Write_response_done
    by (cases err)
       (auto simp: step_simps write_response_ok handler_err failed_fields inv_defs
          client_stream_inv_def bw split: if_splits
          simp del: concat_eq_Nil_conv dest: length1_unique)
next
  case (Client_read_done err sl)
  have h: "relay_inv c"
    using conn_inv_phase(4) [OF assms(1)] step_enabled [OF assms(3)] Client_read_done by simp
  show ?thesis
    using h assms(2,3,4) Client_read_done
    by (cases err)
       (auto simp: step_simps client_read_ok handler_err failed_fields inv_defs
          client_stream_inv_def bw split: if_splits
          simp del: concat_eq_Nil_conv dest: length1_unique)
next
  case (Client_write_done err)
  have h: "relay_inv c"
    using conn_inv_phase(6) [OF assms(1)] step_enabled [OF assms(3)] Client_write_done by simp
  show ?thesis
    using h assms(2,3,4) Client_write_done
    by (cases err)
       (auto simp: step_simps client_write_ok handler_err failed_fields unref_fields inv_defs
          client_stream_inv_def bw split: if_splits
          simp del: concat_eq_Nil_conv dest: length1_unique)
next
  case (Server_read_done err sl)
  have h: "relay_inv c"
    using conn_inv_phase(5) [OF assms(1)] step_enabled [OF assms(3)] Server_read_done by simp
  show ?thesis
    using h assms(2,3,4) Server_read_done
    by (cases err)
       (auto simp: step_simps server_read_ok handler_err failed_fields inv_defs
          client_stream_inv_def bw split: if_splits
          simp del: concat_eq_Nil_conv dest: length1_unique)
next
  case (Server_write_done err)
  have h: "relay_inv c"
    using conn_inv_phase(7) [OF assms(1)] step_enabled [OF assms(3)] Server_write_done by simp
  show ?thesis
    using h assms(2,3,4) Server_write_done
    by (cases err)
       (auto simp: step_simps server_write_ok handler_err failed_fields unref_fields inv_defs
          client_stream_inv_def bw split: if_splits
          simp del: concat_eq_Nil_conv dest: length1_unique)
qed

lemma client_bytes_read_Cons:
  "client_bytes_read (e # es) = client_bytes_read [e] @ client_bytes_read es"
  by (cases e) simp_all

lemma server_bytes_read_Cons:
  "server_bytes_read (e # es) = server_bytes_read [e] @ server_bytes_read es"
  by (cases e) simp_all

lemma origin_stream_run:
  "conn_inv c \<Longrightarrow> origin_stream_inv c bytes \<Longrightarrow> run env c es = Inr c' \<Longrightarrow>
   \<not> list_ex origin_write_failed es \<Longrightarrow>
   origin_stream_inv c' (bytes @ client_bytes_read es)"
proof (induction es arbitrary: c bytes)
  case Nil
  then show ?case by simp
next
  case (Cons e es)
  from Cons.prems(3) obtain d where d: "step env c e = Inr d" and r: "run env d es = Inr c'"
    by (auto split: sum.splits)
  have "conn_inv d"
    using Cons.prems(1) d by (rule conn_inv_step)
  moreover have "origin_stream_inv d (bytes @ client_bytes_read [e])"
    using Cons.prems(1,2) d Cons.prems(4) by (simp add: origin_stream_step)
  ultimately have "origin_stream_inv c' ((bytes @ client_bytes_read [e]) @ client_bytes_read es)"
    using r Cons.prems(4) by (intro Cons.IH) simp_all
  then show ?case
    using client_bytes_read_Cons [of e es] by simp
qed

lemma client_stream_run:
  "conn_inv c \<Longrightarrow> client_stream_inv c bytes \<Longrightarrow> run env c es = Inr c' \<Longrightarrow>
   \<not> list_ex client_write_failed_event es \<Longrightarrow>
   client_stream_inv c' (bytes @ server_bytes_read es)"
proof (induction es arbitrary: c bytes)
  case Nil
  then show ?case by simp
next
  case (Cons e es)
  from Cons.prems(3) obtain d where d: "step env c e = Inr d" and r: "run env d es = Inr c'"
    by (auto split: sum.splits)
  have "conn_inv d"
    using Cons.prems(1) d by (rule conn_inv_step)
  moreover have "client_stream_inv d (bytes @ server_bytes_read [e])"
    using Cons.prems(1,2) d Cons.prems(4) by (simp add: client_stream_step)
  ultimately have "client_stream_inv c' ((bytes @ server_bytes_read [e]) @ server_bytes_read es)"
    using r Cons.prems(4) by (intro Cons.IH) simp_all
  then show ?case
    using server_bytes_read_Cons [of e es] by simp
qed

lemma stream_inv_accept:
  "origin_stream_inv (on_accept Client_endpoint) []"
  "client_stream_inv (on_accept Client_endpoint) []"
  by (simp_all add: origin_stream_inv_def client_stream_inv_def on_accept_def
        grpc_endpoint_read_def)

text \<open>
  C4, as the code has it. Take an accepted connection at any point of its life. If no
  write on the origin has completed with an error, the bytes the relay has written to the
  origin endpoint, followed by the bytes still in the origin's deferred buffer, are byte
  for byte and in order the bytes read from the client; so the bytes written are a prefix
  of the bytes read, and they are all of them once the connection is destroyed. The same
  holds of the bytes written to the client and read from the origin, if no write on the
  client has completed with an error.
\<close>

theorem relayed_bytes_in_order:
  assumes "run env (on_accept Client_endpoint) es = Inr conn"
  shows "(\<not> list_ex origin_write_failed es \<longrightarrow>
            bytes_written Server_endpoint On_server_write_done (effects conn) @
              concat (server_deferred_write_buffer conn) = client_bytes_read es \<and>
            (freed conn \<longrightarrow>
               bytes_written Server_endpoint On_server_write_done (effects conn) =
                 client_bytes_read es)) \<and>
         (\<not> list_ex client_write_failed_event es \<longrightarrow>
            bytes_written Client_endpoint On_client_write_done (effects conn) @
              concat (client_deferred_write_buffer conn) = server_bytes_read es \<and>
            (freed conn \<longrightarrow>
               bytes_written Client_endpoint On_client_write_done (effects conn) =
                 server_bytes_read es))"
proof (intro conjI impI)
  assume ok: "\<not> list_ex origin_write_failed es"
  have inv: "origin_stream_inv conn ([] @ client_bytes_read es)"
    using conn_inv_accept stream_inv_accept(1) assms ok by (rule origin_stream_run)
  then show eq: "bytes_written Server_endpoint On_server_write_done (effects conn) @
      concat (server_deferred_write_buffer conn) = client_bytes_read es"
    by (simp add: origin_stream_inv_def)
  assume "freed conn"
  then show "bytes_written Server_endpoint On_server_write_done (effects conn) =
      client_bytes_read es"
    using inv by (auto simp: origin_stream_inv_def)
next
  assume ok: "\<not> list_ex client_write_failed_event es"
  have inv: "client_stream_inv conn ([] @ server_bytes_read es)"
    using conn_inv_accept stream_inv_accept(2) assms ok by (rule client_stream_run)
  then show "bytes_written Client_endpoint On_client_write_done (effects conn) @
      concat (client_deferred_write_buffer conn) = server_bytes_read es"
    by (simp add: client_stream_inv_def)
  assume "freed conn"
  then show "bytes_written Client_endpoint On_client_write_done (effects conn) =
      server_bytes_read es"
    using inv by (auto simp: client_stream_inv_def)
qed

theorem relayed_bytes_in_order_witness:
  "(case run example_env (on_accept Client_endpoint) echo_trace of
      Inl s \<Rightarrow> False
    | Inr conn \<Rightarrow>
        freed conn \<and>
        bytes_written Server_endpoint On_server_write_done (effects conn) = ''ping'' \<and>
        bytes_written Client_endpoint On_client_write_done (effects conn) = ''pong'')"
proof -
  obtain conn where
    r: "run example_env (on_accept Client_endpoint) echo_trace = Inr conn" and f: "freed conn"
    by (simp add: echo_trace_def eval_defs)
  have o: "\<not> list_ex origin_write_failed echo_trace"
    and c: "\<not> list_ex client_write_failed_event echo_trace"
    and rd: "client_bytes_read echo_trace = ''ping''" "server_bytes_read echo_trace = ''pong''"
    by (simp_all add: echo_trace_def example_handshake_def)
  show ?thesis
    using relayed_bytes_in_order [OF r] r f o c rd by simp
qed

text \<open>
  After a failed write on the origin the equality is lost: in \<open>lossy_trace\<close> the
  connection ends destroyed having read \<open>ab\<close> from the client and written \<open>a\<close> to the
  origin.
\<close>

theorem lost_bytes_after_write_error:
  "(case run example_env (on_accept Client_endpoint) lossy_trace of
      Inl s \<Rightarrow> False
    | Inr conn \<Rightarrow>
        freed conn \<and>
        client_bytes_read lossy_trace = ''ab'' \<and>
        bytes_written Server_endpoint On_server_write_done (effects conn) = ''a'')"
  by (simp add: lossy_trace_def eval_defs)

subsection \<open>The response to the CONNECT request\<close>

lemma write_response_clears:
  "\<not> client_is_writing (on_write_response_done_locked c err)"
  by (cases err)
     (simp_all add: handler_err failed_fields,
      simp add: on_write_response_done_locked_def Let_def unref_fields grpc_endpoint_read_def
        proxy_connection_ref_def)

text \<open>
  C6, as the code has it. When the dial of the origin completes successfully on an
  accepted connection, the handler writes to the client exactly the 26 bytes
  \<open>HTTP/1.0 200 connected\<close> followed by CR LF CR LF, as the only content of the client's
  write buffer, and sets \<open>client_is_writing\<close>. The completion of that write is then the
  only closure pending, and the handler it runs clears \<open>client_is_writing\<close>.
\<close>

theorem connect_done_writes_response:
  assumes "run env (on_accept Client_endpoint) es = Inr conn"
    and "step env conn (Server_connect_done absl_OkStatus) = Inr conn'"
  shows "effects conn' = effects conn @
           [Endpoint_write Client_endpoint [connected_response] On_write_response_done] \<and>
         length connected_response = 26 \<and>
         client_write_buffer conn' = [connected_response] \<and>
         client_is_writing conn' \<and>
         pending conn' = [On_write_response_done] \<and>
         (\<forall>e conn''. step env conn' e = Inr conn'' \<longrightarrow>
            (\<exists>err. e = Write_response_done err) \<and> \<not> client_is_writing conn'')"
proof -
  have "conn_inv conn"
    using conn_inv_accept assms(1) by (rule conn_inv_run)
  then have h: "handshake_inv conn On_server_connect_done"
    using step_enabled [OF assms(2)] by (simp add: conn_inv_phase(2))
  have c': "conn' = conn\<lparr>pending := [On_write_response_done],
                          server_endpoint := Server_endpoint,
                          client_write_buffer := [connected_response],
                          client_is_writing := True,
                          effects := effects conn @
                            [Endpoint_write Client_endpoint [connected_response]
                               On_write_response_done]\<rparr>"
    using assms(2) h
    by (auto simp: step_def server_connect_ok inv_defs split: if_splits)
  have next_step: "(\<exists>err. e = Write_response_done err) \<and> \<not> client_is_writing conn''"
    if s: "step env conn' e = Inr conn''" for e conn''
  proof -
    have "closure_of e = On_write_response_done"
      using step_enabled [OF s] c' by simp
    then obtain err where e: "e = Write_response_done err"
      by (cases e) simp_all
    then have "conn'' = on_write_response_done_locked
                 (deliver e (conn'\<lparr>pending := remove1 (closure_of e) (pending conn')\<rparr>)) err"
      using step_run_closure [OF s] by simp
    then show ?thesis
      using e write_response_clears by simp
  qed
  show ?thesis
    using c' next_step by (simp add: connected_response_def)
qed

theorem connect_done_writes_response_witness:
  "(case run example_env (on_accept Client_endpoint)
           [Read_request_done absl_OkStatus [''example.test'']] of
      Inl s \<Rightarrow> False
    | Inr conn \<Rightarrow>
        (case step example_env conn (Server_connect_done absl_OkStatus) of
           Inl s \<Rightarrow> False
         | Inr conn' \<Rightarrow>
             client_is_writing conn' \<and>
             client_write_buffer conn' = [connected_response] \<and>
             last (effects conn') =
               Endpoint_write Client_endpoint [connected_response] On_write_response_done))"
proof -
  obtain conn where
    r: "run example_env (on_accept Client_endpoint)
          [Read_request_done absl_OkStatus [''example.test'']] = Inr conn"
    and p: "pending conn = [On_server_connect_done]" and f: "\<not> freed conn"
    by (simp add: eval_defs)
  obtain conn' where s: "step example_env conn (Server_connect_done absl_OkStatus) = Inr conn'"
    using p f by (simp add: step_def)
  show ?thesis
    using connect_done_writes_response [OF r s] r s by simp
qed

text \<open>The response written on a concrete handshake has 26 bytes, not 25.\<close>

theorem response_has_26_bytes:
  "(case run example_env (on_accept Client_endpoint)
           [Read_request_done absl_OkStatus [''example.test''],
            Server_connect_done absl_OkStatus] of
      Inl s \<Rightarrow> False
    | Inr conn \<Rightarrow>
        last (effects conn) =
          Endpoint_write Client_endpoint [connected_response] On_write_response_done) \<and>
   length connected_response = 26 \<and> length connected_response \<noteq> 25"
  by (simp add: eval_defs) (simp add: connected_response_def)

subsection \<open>Deferred bytes after a failed write\<close>

lemma fod_eq:
  "forget_origin_deferred c1 = forget_origin_deferred c2 \<Longrightarrow>
   c1 = c2\<lparr>server_deferred_write_buffer := server_deferred_write_buffer c1\<rparr>"
  by (cases c1, cases c2) (simp add: forget_origin_deferred_def)

lemma fod_shutdown:
  "shutdown_client (c\<lparr>server_deferred_write_buffer := d\<rparr>) f = shutdown_client c f"
  "shutdown_server (c\<lparr>server_deferred_write_buffer := d\<rparr>) f = shutdown_server c f"
  by (simp_all add: shutdown_client_def shutdown_server_def)

lemma fod_unref:
  "forget_origin_deferred (proxy_connection_unref (c\<lparr>server_deferred_write_buffer := d\<rparr>)) =
   forget_origin_deferred (proxy_connection_unref c)"
  by (simp add: forget_origin_deferred_def io_defs Let_def)

lemma fod_failed:
  "forget_origin_deferred (proxy_connection_failed (c\<lparr>server_deferred_write_buffer := d\<rparr>) f e) =
   forget_origin_deferred (proxy_connection_failed c f e)"
  by (simp add: proxy_connection_failed_def fod_shutdown io_defs forget_origin_deferred_def
        Let_def)

lemma fod_unref_cong:
  assumes "forget_origin_deferred c1 = forget_origin_deferred c2"
  shows "forget_origin_deferred (proxy_connection_unref c1) =
         forget_origin_deferred (proxy_connection_unref c2)"
  using fod_unref [where c = c2 and d = "server_deferred_write_buffer c1"] fod_eq [OF assms]
  by simp

lemma fod_failed_cong:
  assumes "forget_origin_deferred c1 = forget_origin_deferred c2"
  shows "forget_origin_deferred (proxy_connection_failed c1 f e) =
         forget_origin_deferred (proxy_connection_failed c2 f e)"
  using fod_failed [where c = c2 and d = "server_deferred_write_buffer c1"] fod_eq [OF assms]
  by simp

lemma fod_handlers:
  "forget_origin_deferred (on_client_read_done_locked (c\<lparr>server_deferred_write_buffer := d\<rparr>) e) =
   forget_origin_deferred (on_client_read_done_locked c e)"
  "forget_origin_deferred (on_server_read_done_locked (c\<lparr>server_deferred_write_buffer := d\<rparr>) e) =
   forget_origin_deferred (on_server_read_done_locked c e)"
  "forget_origin_deferred (on_client_write_done_locked (c\<lparr>server_deferred_write_buffer := d\<rparr>) e) =
   forget_origin_deferred (on_client_write_done_locked c e)"
  "forget_origin_deferred
     (on_server_write_done_locked (c\<lparr>server_deferred_write_buffer := d\<rparr>) (grpc_error m)) =
   forget_origin_deferred (on_server_write_done_locked c (grpc_error m))"
  "forget_origin_deferred (on_server_connect_done_locked (c\<lparr>server_deferred_write_buffer := d\<rparr>) e) =
   forget_origin_deferred (on_server_connect_done_locked c e)"
  by (auto simp: handler_defs Let_def buf_defs proxy_connection_ref_def grpc_endpoint_read_def
        grpc_endpoint_write_def split: prod.splits
        intro!: fod_failed_cong fod_unref_cong)
     (simp_all add: forget_origin_deferred_def)

lemma fod_write_response:
  "forget_origin_deferred (on_write_response_done_locked (c\<lparr>server_deferred_write_buffer := d\<rparr>) e) =
   forget_origin_deferred (on_write_response_done_locked c e)"
  by (auto simp: on_write_response_done_locked_def Let_def buf_defs intro!: fod_failed_cong)
     (simp_all add: forget_origin_deferred_def io_defs Let_def)

lemma fod_read_request:
  "map_sum id forget_origin_deferred
     (on_read_request_done_locked env (c\<lparr>server_deferred_write_buffer := d\<rparr>) e) =
   map_sum id forget_origin_deferred (on_read_request_done_locked env c e)"
  by (auto simp: on_read_request_done_locked_def check_auth_and_connect_def
        resolve_and_connect_def Let_def buf_defs
        split: prod.splits option.splits sum.splits intro!: fod_failed_cong)
     (simp_all add: forget_origin_deferred_def emit_def grpc_endpoint_read_def
        grpc_tcp_client_connect_def)

lemma fod_deliver:
  "deliver e (c\<lparr>server_deferred_write_buffer := d, pending := q\<rparr>) =
   (deliver e (c\<lparr>pending := q\<rparr>))\<lparr>server_deferred_write_buffer := d\<rparr>"
  by (cases e) simp_all

lemma fod_step:
  assumes "\<not> origin_write_ok e"
  shows "map_sum id forget_origin_deferred
           (step env (c\<lparr>server_deferred_write_buffer := d\<rparr>) e) =
         map_sum id forget_origin_deferred (step env c e)"
proof (cases e)
  case (Server_write_done err)
  with assms obtain m where "err = grpc_error m"
    by (cases err) auto
  then show ?thesis
    using Server_write_done
    by (simp add: step_def fod_deliver fod_handlers del: deliver.simps)
qed (simp_all add: step_def fod_deliver fod_handlers fod_write_response fod_read_request
       del: deliver.simps)

lemma fod_run:
  "\<not> list_ex origin_write_ok es \<Longrightarrow>
   map_sum id forget_origin_deferred (run env (c\<lparr>server_deferred_write_buffer := d\<rparr>) es) =
   map_sum id forget_origin_deferred (run env c es)"
proof (induction es arbitrary: c d)
  case Nil
  then show ?case by (simp add: forget_origin_deferred_def)
next
  case (Cons e es)
  have s: "map_sum id forget_origin_deferred
             (step env (c\<lparr>server_deferred_write_buffer := d\<rparr>) e) =
           map_sum id forget_origin_deferred (step env c e)"
    using Cons.prems by (simp add: fod_step)
  show ?case
  proof (cases "step env c e")
    case (Inl stop)
    then have "step env (c\<lparr>server_deferred_write_buffer := d\<rparr>) e = Inl stop"
      using s by (cases "step env (c\<lparr>server_deferred_write_buffer := d\<rparr>) e") simp_all
    then show ?thesis
      using Inl by simp
  next
    case (Inr c')
    then obtain c1 where c1: "step env (c\<lparr>server_deferred_write_buffer := d\<rparr>) e = Inr c1"
      and f: "forget_origin_deferred c1 = forget_origin_deferred c'"
      using s by (cases "step env (c\<lparr>server_deferred_write_buffer := d\<rparr>) e") simp_all
    have "map_sum id forget_origin_deferred
            (run env (c'\<lparr>server_deferred_write_buffer := server_deferred_write_buffer c1\<rparr>) es) =
          map_sum id forget_origin_deferred (run env c' es)"
      using Cons.prems by (intro Cons.IH) simp
    then show ?thesis
      using Inr c1 fod_eq [OF f] by (simp add: id_def)
  qed
qed

lemma fod_effects:
  assumes "\<not> list_ex origin_write_ok es"
  shows "map_sum id effects (run env (c\<lparr>server_deferred_write_buffer := d\<rparr>) es) =
         map_sum id effects (run env c es)"
proof -
  have "map_sum id effects (map_sum id forget_origin_deferred r) = map_sum id effects r" for r
    by (cases r) (simp_all add: forget_origin_deferred_def)
  then show ?thesis
    using fod_run [OF assms, where env = env and c = c and d = d] by metis
qed

lemma fcd_eq:
  "forget_client_deferred c1 = forget_client_deferred c2 \<Longrightarrow>
   c1 = c2\<lparr>client_deferred_write_buffer := client_deferred_write_buffer c1\<rparr>"
  by (cases c1, cases c2) (simp add: forget_client_deferred_def)

lemma fcd_shutdown:
  "shutdown_client (c\<lparr>client_deferred_write_buffer := d\<rparr>) f = shutdown_client c f"
  "shutdown_server (c\<lparr>client_deferred_write_buffer := d\<rparr>) f = shutdown_server c f"
  by (simp_all add: shutdown_client_def shutdown_server_def)

lemma fcd_unref:
  "forget_client_deferred (proxy_connection_unref (c\<lparr>client_deferred_write_buffer := d\<rparr>)) =
   forget_client_deferred (proxy_connection_unref c)"
  by (simp add: forget_client_deferred_def io_defs Let_def)

lemma fcd_failed:
  "forget_client_deferred (proxy_connection_failed (c\<lparr>client_deferred_write_buffer := d\<rparr>) f e) =
   forget_client_deferred (proxy_connection_failed c f e)"
  by (simp add: proxy_connection_failed_def fcd_shutdown io_defs forget_client_deferred_def
        Let_def)

lemma fcd_unref_cong:
  assumes "forget_client_deferred c1 = forget_client_deferred c2"
  shows "forget_client_deferred (proxy_connection_unref c1) =
         forget_client_deferred (proxy_connection_unref c2)"
  using fcd_unref [where c = c2 and d = "client_deferred_write_buffer c1"] fcd_eq [OF assms]
  by simp

lemma fcd_failed_cong:
  assumes "forget_client_deferred c1 = forget_client_deferred c2"
  shows "forget_client_deferred (proxy_connection_failed c1 f e) =
         forget_client_deferred (proxy_connection_failed c2 f e)"
  using fcd_failed [where c = c2 and d = "client_deferred_write_buffer c1"] fcd_eq [OF assms]
  by simp

lemma fcd_handlers:
  "forget_client_deferred (on_client_read_done_locked (c\<lparr>client_deferred_write_buffer := d\<rparr>) e) =
   forget_client_deferred (on_client_read_done_locked c e)"
  "forget_client_deferred (on_server_read_done_locked (c\<lparr>client_deferred_write_buffer := d\<rparr>) e) =
   forget_client_deferred (on_server_read_done_locked c e)"
  "forget_client_deferred (on_server_write_done_locked (c\<lparr>client_deferred_write_buffer := d\<rparr>) e) =
   forget_client_deferred (on_server_write_done_locked c e)"
  "forget_client_deferred
     (on_client_write_done_locked (c\<lparr>client_deferred_write_buffer := d\<rparr>) (grpc_error m)) =
   forget_client_deferred (on_client_write_done_locked c (grpc_error m))"
  "forget_client_deferred (on_server_connect_done_locked (c\<lparr>client_deferred_write_buffer := d\<rparr>) e) =
   forget_client_deferred (on_server_connect_done_locked c e)"
  by (auto simp: handler_defs Let_def buf_defs proxy_connection_ref_def grpc_endpoint_read_def
        grpc_endpoint_write_def split: prod.splits
        intro!: fcd_failed_cong fcd_unref_cong)
     (simp_all add: forget_client_deferred_def)

lemma fcd_write_response:
  "forget_client_deferred (on_write_response_done_locked (c\<lparr>client_deferred_write_buffer := d\<rparr>) e) =
   forget_client_deferred (on_write_response_done_locked c e)"
  by (auto simp: on_write_response_done_locked_def Let_def buf_defs intro!: fcd_failed_cong)
     (simp_all add: forget_client_deferred_def io_defs Let_def)

lemma fcd_read_request:
  "map_sum id forget_client_deferred
     (on_read_request_done_locked env (c\<lparr>client_deferred_write_buffer := d\<rparr>) e) =
   map_sum id forget_client_deferred (on_read_request_done_locked env c e)"
  by (auto simp: on_read_request_done_locked_def check_auth_and_connect_def
        resolve_and_connect_def Let_def buf_defs
        split: prod.splits option.splits sum.splits intro!: fcd_failed_cong)
     (simp_all add: forget_client_deferred_def emit_def grpc_endpoint_read_def
        grpc_tcp_client_connect_def)

lemma fcd_deliver:
  "deliver e (c\<lparr>client_deferred_write_buffer := d, pending := q\<rparr>) =
   (deliver e (c\<lparr>pending := q\<rparr>))\<lparr>client_deferred_write_buffer := d\<rparr>"
  by (cases e) simp_all

lemma fcd_step:
  assumes "\<not> client_write_ok e"
  shows "map_sum id forget_client_deferred
           (step env (c\<lparr>client_deferred_write_buffer := d\<rparr>) e) =
         map_sum id forget_client_deferred (step env c e)"
proof (cases e)
  case (Client_write_done err)
  with assms obtain m where "err = grpc_error m"
    by (cases err) auto
  then show ?thesis
    using Client_write_done
    by (simp add: step_def fcd_deliver fcd_handlers del: deliver.simps)
qed (simp_all add: step_def fcd_deliver fcd_handlers fcd_write_response fcd_read_request
       del: deliver.simps)

lemma fcd_run:
  "\<not> list_ex client_write_ok es \<Longrightarrow>
   map_sum id forget_client_deferred (run env (c\<lparr>client_deferred_write_buffer := d\<rparr>) es) =
   map_sum id forget_client_deferred (run env c es)"
proof (induction es arbitrary: c d)
  case Nil
  then show ?case by (simp add: forget_client_deferred_def)
next
  case (Cons e es)
  have s: "map_sum id forget_client_deferred
             (step env (c\<lparr>client_deferred_write_buffer := d\<rparr>) e) =
           map_sum id forget_client_deferred (step env c e)"
    using Cons.prems by (simp add: fcd_step)
  show ?case
  proof (cases "step env c e")
    case (Inl stop)
    then have "step env (c\<lparr>client_deferred_write_buffer := d\<rparr>) e = Inl stop"
      using s by (cases "step env (c\<lparr>client_deferred_write_buffer := d\<rparr>) e") simp_all
    then show ?thesis
      using Inl by simp
  next
    case (Inr c')
    then obtain c1 where c1: "step env (c\<lparr>client_deferred_write_buffer := d\<rparr>) e = Inr c1"
      and f: "forget_client_deferred c1 = forget_client_deferred c'"
      using s by (cases "step env (c\<lparr>client_deferred_write_buffer := d\<rparr>) e") simp_all
    have "map_sum id forget_client_deferred
            (run env (c'\<lparr>client_deferred_write_buffer := client_deferred_write_buffer c1\<rparr>) es) =
          map_sum id forget_client_deferred (run env c' es)"
      using Cons.prems by (intro Cons.IH) simp
    then show ?thesis
      using Inr c1 fcd_eq [OF f] by (simp add: id_def)
  qed
qed

lemma fcd_effects:
  assumes "\<not> list_ex client_write_ok es"
  shows "map_sum id effects (run env (c\<lparr>client_deferred_write_buffer := d\<rparr>) es) =
         map_sum id effects (run env c es)"
proof -
  have "map_sum id effects (map_sum id forget_client_deferred r) = map_sum id effects r" for r
    by (cases r) (simp_all add: forget_client_deferred_def)
  then show ?thesis
    using fcd_run [OF assms, where env = env and c = c and d = d] by metis
qed

text \<open>
  C10, as the code has it. A relay write that completes with an error clears the side's
  \<open>is_writing\<close> and calls the shutdown policy; it issues no write, and it leaves the
  side's deferred buffer as it is unless the connection is destroyed there and then. From
  any state, over any continuation in which no write on that side completes successfully,
  the calls the connection makes into the I/O layer are the same whatever the deferred
  buffer holds: its bytes are not written. Dropping the last reference destroys both
  deferred buffers; dropping another leaves them.
\<close>

theorem deferred_bytes_after_write_error:
  "on_server_write_done_locked conn (grpc_error m) =
     proxy_connection_failed (conn\<lparr>server_is_writing := False\<rparr>) SERVER_WRITE_FAILED
       (grpc_error m) \<and>
   server_deferred_write_buffer (on_server_write_done_locked conn (grpc_error m)) =
     (if refcount conn = 1 then [] else server_deferred_write_buffer conn) \<and>
   bytes_written ep cb (effects (on_server_write_done_locked conn (grpc_error m))) =
     bytes_written ep cb (effects conn) \<and>
   on_client_write_done_locked conn (grpc_error m) =
     proxy_connection_failed (conn\<lparr>client_is_writing := False\<rparr>) CLIENT_WRITE_FAILED
       (grpc_error m) \<and>
   client_deferred_write_buffer (on_client_write_done_locked conn (grpc_error m)) =
     (if refcount conn = 1 then [] else client_deferred_write_buffer conn) \<and>
   bytes_written ep cb (effects (on_client_write_done_locked conn (grpc_error m))) =
     bytes_written ep cb (effects conn) \<and>
   (\<not> list_ex origin_write_ok es \<longrightarrow>
      map_sum id effects (run env (conn\<lparr>server_deferred_write_buffer := d\<rparr>) es) =
      map_sum id effects (run env conn es)) \<and>
   (\<not> list_ex client_write_ok es \<longrightarrow>
      map_sum id effects (run env (conn\<lparr>client_deferred_write_buffer := d\<rparr>) es) =
      map_sum id effects (run env conn es)) \<and>
   (refcount conn = 1 \<longrightarrow>
      freed (proxy_connection_unref conn) \<and>
      server_deferred_write_buffer (proxy_connection_unref conn) = [] \<and>
      client_deferred_write_buffer (proxy_connection_unref conn) = [] \<and>
      Slice_buffer_destroy Server_deferred_write_buffer \<in>
        set (effects (proxy_connection_unref conn)) \<and>
      Slice_buffer_destroy Client_deferred_write_buffer \<in>
        set (effects (proxy_connection_unref conn))) \<and>
   (refcount conn \<noteq> 1 \<longrightarrow>
      freed (proxy_connection_unref conn) = freed conn \<and>
      server_deferred_write_buffer (proxy_connection_unref conn) =
        server_deferred_write_buffer conn \<and>
      client_deferred_write_buffer (proxy_connection_unref conn) =
        client_deferred_write_buffer conn)"
  using fod_effects [where es = es and env = env and c = conn and d = d]
    fcd_effects [where es = es and env = env and c = conn and d = d]
  by (simp add: handler_err failed_fields unref_fields)
     (simp add: io_defs Let_def)

theorem deferred_bytes_after_write_error_witness:
  "(case run example_env (on_accept Client_endpoint)
           (example_handshake @
            [Client_read_done absl_OkStatus [''a''], Client_read_done absl_OkStatus [''b''],
             Server_write_done (grpc_error ''EPIPE'')]) of
      Inl s \<Rightarrow> False
    | Inr conn \<Rightarrow>
        server_deferred_write_buffer conn = [''b''] \<and>
        map_sum id effects
          (run example_env (conn\<lparr>server_deferred_write_buffer := []\<rparr>) example_teardown) =
        map_sum id effects (run example_env conn example_teardown) \<and>
        map_sum id effects
          (run example_env (conn\<lparr>client_deferred_write_buffer := [''x'']\<rparr>) example_teardown) =
        map_sum id effects (run example_env conn example_teardown)) \<and>
   freed (proxy_connection_unref (on_accept Client_endpoint)) \<and>
   freed (proxy_connection_unref (proxy_connection_ref (on_accept Client_endpoint))) =
     freed (proxy_connection_ref (on_accept Client_endpoint))"
proof -
  obtain conn where
    r: "run example_env (on_accept Client_endpoint)
          (example_handshake @
           [Client_read_done absl_OkStatus [''a''], Client_read_done absl_OkStatus [''b''],
            Server_write_done (grpc_error ''EPIPE'')]) = Inr conn"
    and b: "server_deferred_write_buffer conn = [''b'']"
    by (simp add: eval_defs)
  have o: "\<not> list_ex origin_write_ok example_teardown"
    and c: "\<not> list_ex client_write_ok example_teardown"
    by (simp_all add: example_teardown_def)
  have one: "refcount (on_accept Client_endpoint) = 1"
    and two: "refcount (proxy_connection_ref (on_accept Client_endpoint)) \<noteq> 1"
    by (simp_all add: on_accept_def grpc_endpoint_read_def proxy_connection_ref_def)
  show ?thesis
    using deferred_bytes_after_write_error
            [where conn = conn and es = example_teardown and env = example_env and d = "[]"]
          deferred_bytes_after_write_error
            [where conn = conn and es = example_teardown and env = example_env and d = "[''x'']"]
          deferred_bytes_after_write_error [where conn = "on_accept Client_endpoint"]
          deferred_bytes_after_write_error
            [where conn = "proxy_connection_ref (on_accept Client_endpoint)"]
          r b o c one two
    by simp
qed

text \<open>
  A later write on the same side that completes successfully does drain the buffer: in
  \<open>resumed_trace\<close> the byte \<open>b\<close>, deferred when the write failed, is written to the
  origin afterwards.
\<close>

theorem deferred_bytes_written_later:
  "(case run example_env (on_accept Client_endpoint)
           (example_handshake @
            [Client_read_done absl_OkStatus [''a''], Client_read_done absl_OkStatus [''b'']]) of
      Inl s \<Rightarrow> False
    | Inr conn \<Rightarrow>
        server_deferred_write_buffer conn = [''b''] \<and>
        (case run example_env conn resumed_trace of
           Inl s \<Rightarrow> False
         | Inr conn' \<Rightarrow>
             last (effects conn') =
               Endpoint_write Server_endpoint [''b'', ''d''] On_server_write_done))"
  by (simp add: resumed_trace_def eval_defs)

end
